theory Spec2Isabelle
  imports Complex_Main "HOL-Library.Monad_Syntax"
begin

section \<open>LabJacker U3: the sequence thread\<close>

text \<open>
  A shallow embedding of \<^verbatim>\<open>labjacker_u3.py\<close>. The sequence thread
  (\<^verbatim>\<open>LabJackerSeq\<close>) talks to the user interface only through Qt signals; the
  model records every emitted signal, in order, as an event. The user interface
  (\<^verbatim>\<open>LabJackerUI\<close>) is modelled further below by the slots these signals are
  connected to.
\<close>

subsection \<open>Formatting\<close>

text \<open>\<^verbatim>\<open>'{0}'.format(n)\<close> for a non-negative Python int: its decimal digits.\<close>

definition digit_char :: "nat \<Rightarrow> char" where
  "digit_char d = ''0123456789'' ! d"

function str_nat :: "nat \<Rightarrow> string" where
  "str_nat n = (if n < 10 then [digit_char n] else str_nat (n div 10) @ [digit_char (n mod 10)])"
  by pat_completeness auto
termination
  by (relation "measure (\<lambda>n. n)") auto

declare str_nat.simps [simp del]

subsection \<open>Signals and commands\<close>

text \<open>
  The signals of \<^verbatim>\<open>LabJackerSeq\<close>, one constructor each, with the argument the
  signal carries. \<open>Slept\<close> records a completed \<^verbatim>\<open>time.sleep(n)\<close> of a sequence
  command (the 0.1 s polling sleeps of the parameter handshake are not recorded).
\<close>

datatype event =
    SetLogFile
  | SetSampleName
  | SetSeqInt
  | SetLoopCount
  | LogState string
  | ToggleFio nat
  | ToggleRun bool
  | LogMsg string
  | DisplayAlert string
  | Slept nat

text \<open>
  A sequence entry is a Python list \<^verbatim>\<open>[command, message, log_state]\<close> whose
  first element is source text handed to \<^verbatim>\<open>eval\<close>. Only three shapes of text
  occur in the program; \<open>code\<close> names them:
  \<^verbatim>\<open>'time.sleep(n)'\<close>, \<^verbatim>\<open>'self.toggle_fio.emit(k)'\<close> and
  \<^verbatim>\<open>'self.toggle_run.emit(b)'\<close>.
\<close>

datatype code = Sleep nat | EmitToggleFio nat | EmitToggleRun bool

record command =
  seq_cmd :: code
  seq_msg :: string
  log_state_flag :: bool

definition mk_command :: "code \<Rightarrow> string \<Rightarrow> bool \<Rightarrow> command" where
  "mk_command c m l = \<lparr>seq_cmd = c, seq_msg = m, log_state_flag = l\<rparr>"

text \<open>
  \<^verbatim>\<open>set_sequence\<close>: the list assigned to \<^verbatim>\<open>self.seq\<close>, for the step interval
  \<^verbatim>\<open>self.seq_int\<close>.
\<close>

definition sleep_str :: "nat \<Rightarrow> code" where
  "sleep_str seq_int = Sleep seq_int"

definition wait_str :: "nat \<Rightarrow> string" where
  "wait_str seq_int = ''waiting for '' @ str_nat seq_int @ '' seconds''"

definition set_sequence :: "nat \<Rightarrow> command list" where
  "set_sequence seq_int =
    [ mk_command (Sleep 0) ''sequence starting ...'' True,
      mk_command (EmitToggleFio 5) ''opening valve 2'' False,
      mk_command (EmitToggleFio 6) ''opening valve 3'' False,
      mk_command (EmitToggleFio 7) ''opening valve 4'' False,
      mk_command (sleep_str seq_int) (wait_str seq_int) False,
      mk_command (EmitToggleFio 5) ''closing valve 2'' True,
      mk_command (EmitToggleFio 7) ''closing valve 4'' False,
      mk_command (EmitToggleFio 4) ''opening valve 1'' False,
      mk_command (sleep_str seq_int) (wait_str seq_int) False,
      mk_command (EmitToggleFio 4) ''closing valve 1'' True,
      mk_command (sleep_str seq_int) (wait_str seq_int) False,
      mk_command (EmitToggleFio 5) ''opening valve 2'' True,
      mk_command (sleep_str seq_int) (wait_str seq_int) False,
      mk_command (EmitToggleFio 7) ''opening valve 4'' True,
      mk_command (sleep_str seq_int) (wait_str seq_int) False,
      mk_command (EmitToggleFio 5) ''closing valve 2'' True,
      mk_command (EmitToggleFio 6) ''closing valve 3'' False,
      mk_command (EmitToggleFio 7) ''closing valve 4'' False ]"

subsection \<open>The thread and its environment\<close>

text \<open>
  The parameters the dialogs hand to the thread. A text parameter is a string, the empty
  string when the dialog was cancelled. A number parameter is \<^verbatim>\<open>''\<close> when the
  dialog was cancelled and otherwise the int chosen in a \<^verbatim>\<open>QInputDialog.getInt\<close>
  with minimum 1, a non-negative number. The outer \<open>option\<close> of a field is Python's
  \<^verbatim>\<open>None\<close>, the value before the dialog has answered.
\<close>

datatype intval = NoValue | IntValue nat

fun truthy_intval :: "intval \<Rightarrow> bool" where
  "truthy_intval NoValue = False"
| "truthy_intval (IntValue n) = (n \<noteq> 0)"

text \<open>
  The fields of \<^verbatim>\<open>self.status\<close> the modelled code reads or writes. The keys
  \<^verbatim>\<open>'fio4'\<close> .. \<^verbatim>\<open>'fio7'\<close> are represented by the port numbers 4 .. 7 and
  \<^verbatim>\<open>'ain0'\<close>, \<^verbatim>\<open>'ain1'\<close> by 0 and 1
  (the code builds them as \<^verbatim>\<open>'fio{0}'.format(fio_id)\<close>); \<open>None\<close> is Python's
  \<^verbatim>\<open>None\<close>.
\<close>

record status =
  temp :: "real option"
  ain :: "nat \<Rightarrow> real option"
  vd :: "real option"
  pres :: "real option"
  fio :: "nat \<Rightarrow> int option"
  seq_running :: bool

text \<open>
  What the thread observes of the rest of the program while it runs:
  \<^item> \<open>now n\<close> is the formatted time returned by the \<open>n\<close>-th call of
    \<^verbatim>\<open>get_timestamp\<close>;
  \<^item> \<open>stop_at n\<close> holds when the user interface's \<^verbatim>\<open>toggle_run\<close> has assigned
    \<^verbatim>\<open>quit = True\<close> between the previous read of \<^verbatim>\<open>self.quit\<close> and the
    \<open>n\<close>-th one (nothing in the program ever resets the flag);
  \<^item> \<open>log_file_resp n\<close> is the value of \<^verbatim>\<open>self.log_file\<close> at the \<open>n\<close>-th
    test of the waiting loop, and likewise for the other three parameters.
\<close>

record env =
  now :: "nat \<Rightarrow> string"
  stop_at :: "nat \<Rightarrow> bool"
  log_file_resp :: "nat \<Rightarrow> string option"
  sample_name_resp :: "nat \<Rightarrow> string option"
  seq_int_resp :: "nat \<Rightarrow> intval option"
  loop_count_resp :: "nat \<Rightarrow> intval option"

text \<open>
  The thread object. \<open>emitted\<close> is the list of signals emitted (and sleeps completed)
  so far; \<open>clock_reads\<close> and \<open>quit_reads\<close> count the reads of the clock and of the
  quit flag, to index the environment.
\<close>

record seq_thread =
  quit :: bool
  log_file :: "string option"
  sample_name :: "string option"
  seq_int :: "intval option"
  loop_count :: "intval option"
  seq :: "command list option"
  emitted :: "event list"
  clock_reads :: nat
  quit_reads :: nat

definition init_seq_thread :: seq_thread where
  "init_seq_thread =
     \<lparr>quit = False, log_file = None, sample_name = None, seq_int = None,
      loop_count = None, seq = None, emitted = [], clock_reads = 0, quit_reads = 0\<rparr>"

definition init_cond :: "(nat \<times> int) list" where
  "init_cond = [(4, 1), (5, 1), (6, 1), (7, 1)]"

definition io_labels :: "(nat \<times> string) list" where
  "io_labels = [(4, ''Valve 1''), (5, ''Valve 2''), (6, ''Valve 3''), (7, ''Valve 4'')]"

definition io_states :: "(nat \<times> (int \<times> string) list) list" where
  "io_states =
     [(4, [(0, ''Open''), (1, ''Closed'')]),
      (5, [(0, ''Open''), (1, ''Closed'')]),
      (6, [(0, ''Open''), (1, ''Closed'')]),
      (7, [(0, ''Open''), (1, ''Closed'')])]"

definition emit :: "event \<Rightarrow> seq_thread \<Rightarrow> seq_thread" where
  "emit ev s = s\<lparr>emitted := emitted s @ [ev]\<rparr>"

definition get_timestamp :: "env \<Rightarrow> seq_thread \<Rightarrow> string \<times> seq_thread" where
  "get_timestamp e s = (now e (clock_reads s), s\<lparr>clock_reads := Suc (clock_reads s)\<rparr>)"

text \<open>One read of \<^verbatim>\<open>self.quit\<close>: a stop request that has arrived is seen.\<close>

definition read_quit :: "env \<Rightarrow> seq_thread \<Rightarrow> bool \<times> seq_thread" where
  "read_quit e s =
     (let q = (quit s \<or> stop_at e (quit_reads s))
      in (q, s\<lparr>quit := q, quit_reads := Suc (quit_reads s)\<rparr>))"

text \<open>
  \<^verbatim>\<open>eval(seq_cmd)\<close> on the three shapes of command text: a sleep that
  completes, or a signal that is emitted.
\<close>

fun code_event :: "code \<Rightarrow> event" where
  "code_event (Sleep n) = Slept n"
| "code_event (EmitToggleFio k) = ToggleFio k"
| "code_event (EmitToggleRun b) = ToggleRun b"

definition eval_code :: "code \<Rightarrow> seq_thread \<Rightarrow> seq_thread" where
  "eval_code c s = emit (code_event c) s"

definition run_command :: "env \<Rightarrow> seq_thread \<Rightarrow> command \<Rightarrow> seq_thread" where
  "run_command e s command =
     (case read_quit e s of (q, s1) \<Rightarrow>
        if \<not> q then
          (case get_timestamp e s1 of (seq_time, s2) \<Rightarrow>
             let log_msg = seq_time @ '' : '' @ seq_msg command;
                 s3 = emit (LogMsg log_msg) s2;
                 s4 = (if log_state_flag command then emit (LogState seq_time) s3 else s3)
             in eval_code (seq_cmd command) s4)
        else s1)"

text \<open>
  \<^verbatim>\<open>display_state_error\<close>. Each line looks the port up in
  \<^verbatim>\<open>io_labels\<close> and the required state in \<^verbatim>\<open>io_states\<close>; \<open>those\<close> is
  \<open>None\<close> when a key is missing (a \<^verbatim>\<open>KeyError\<close>, which would end the thread before
  the alert; with the tables above every key is found, see \<open>display_state_error_eq\<close>).
\<close>

definition req_state_line :: "nat \<times> int \<Rightarrow> string option" where
  "req_state_line = (\<lambda>(i, fio_init_cond).
     do {
       fio_label \<leftarrow> map_of io_labels i;
       labels \<leftarrow> map_of io_states i;
       fio_req_state \<leftarrow> map_of labels fio_init_cond;
       Some (''  '' @ fio_label @ '' : '' @ fio_req_state)
     })"

fun join_lines :: "string list \<Rightarrow> string" where
  "join_lines [] = []"
| "join_lines [l] = l"
| "join_lines (l # ls) = l @ [CHR 0x0A] @ join_lines ls"

definition alert_msg :: "string list \<Rightarrow> string" where
  "alert_msg req_state =
     ''Required initial state:    '' @ [CHR 0x0A, CHR 0x0A] @ join_lines req_state"

definition display_state_error :: "seq_thread \<Rightarrow> seq_thread" where
  "display_state_error s =
     (case those (map req_state_line init_cond) of
        Some req_state \<Rightarrow> emit (DisplayAlert (alert_msg req_state)) s
      | None \<Rightarrow> s)"

text \<open>
  \<^verbatim>\<open>check_init_state\<close>: the loop over \<^verbatim>\<open>self.init_cond\<close>, in the order of
  the dictionary, against the status \<open>st\<close>.
\<close>

fun check_loop :: "env \<Rightarrow> status \<Rightarrow> seq_thread \<Rightarrow> (nat \<times> int) list \<Rightarrow> bool \<times> seq_thread" where
  "check_loop e st s [] = (True, s)"
| "check_loop e st s ((i, req_state) # rest) =
     (let cur_state = fio st i in
      if Some req_state \<noteq> cur_state then
        (let s1 = emit (ToggleRun True) s;
             s2 = display_state_error s1
         in case get_timestamp e s2 of (seq_time, s3) \<Rightarrow>
              let seq_msg = ''valve states do not match required initial state'';
                  log_msg = seq_time @ '' : '' @ seq_msg
              in (False, emit (LogMsg log_msg) s3))
      else check_loop e st s rest)"

definition check_init_state :: "env \<Rightarrow> status \<Rightarrow> seq_thread \<Rightarrow> bool \<times> seq_thread" where
  "check_init_state e st s = check_loop e st s init_cond"

text \<open>
  \<^verbatim>\<open>while self.x is None: time.sleep(0.1)\<close>: the loop ends at the first test that
  finds a value, and never ends when no test does.
\<close>

partial_function (option) wait_for :: "(nat \<Rightarrow> 'a option) \<Rightarrow> nat \<Rightarrow> 'a option" where
  "wait_for resp n = (case resp n of None \<Rightarrow> wait_for resp (Suc n) | Some v \<Rightarrow> Some v)"

text \<open>The body of \<^verbatim>\<open>for i in range(self.loop_count)\<close>, and the loop.\<close>

definition loop_msg :: "nat \<Rightarrow> nat \<Rightarrow> string" where
  "loop_msg i n = ''starting sequence loop '' @ str_nat (i + 1) @ '' of '' @ str_nat n"

definition log_loop_start :: "env \<Rightarrow> nat \<Rightarrow> nat \<Rightarrow> seq_thread \<Rightarrow> seq_thread" where
  "log_loop_start e n i s =
     (case get_timestamp e s of (seq_time, s1) \<Rightarrow>
        let log_msg = seq_time @ '' : '' @ loop_msg i n
        in emit (LogMsg log_msg) s1)"

definition run_loop_body :: "env \<Rightarrow> nat \<Rightarrow> command list \<Rightarrow> seq_thread \<Rightarrow> nat \<Rightarrow> seq_thread" where
  "run_loop_body e n cmds s i =
     (case read_quit e s of (q, s1) \<Rightarrow>
        if \<not> q then foldl (run_command e) (log_loop_start e n i s1) cmds
        else s1)"

definition run_loops :: "env \<Rightarrow> nat \<Rightarrow> command list \<Rightarrow> seq_thread \<Rightarrow> seq_thread" where
  "run_loops e n cmds s = foldl (run_loop_body e n cmds) s [0..<n]"

definition finished_cmd :: command where
  "finished_cmd = mk_command (EmitToggleRun True) ''finished'' False"

text \<open>
  The last part of \<^verbatim>\<open>run\<close>, once the four parameters are there:
  \<^verbatim>\<open>set_sequence\<close>, the loops, and the completion report.
\<close>

definition run_sequence :: "env \<Rightarrow> seq_thread \<Rightarrow> nat \<Rightarrow> nat \<Rightarrow> seq_thread" where
  "run_sequence e s interval n =
     (let cmds = set_sequence interval;
          s1 = s\<lparr>seq := Some cmds\<rparr>;
          s2 = run_loops e n cmds s1
      in run_command e s2 finished_cmd)"

definition abort_cmd :: "string \<Rightarrow> command" where
  "abort_cmd m = mk_command (EmitToggleRun True) m False"

text \<open>
  \<^verbatim>\<open>run\<close>. Each parameter is requested by a signal and then awaited; the
  user interface stores the answer in the thread's field. \<open>None\<close>: the thread waits
  for a parameter for ever. A number parameter is refused by
  \<^verbatim>\<open>if not self.seq_int\<close> when it is \<^verbatim>\<open>''\<close> or 0.
\<close>

definition run :: "env \<Rightarrow> status \<Rightarrow> seq_thread \<Rightarrow> seq_thread option" where
  "run e st s0 =
     (case check_init_state e st s0 of
        (False, s1) \<Rightarrow> Some s1
      | (True, s1) \<Rightarrow>
          do {
            let s2 = emit SetLogFile s1;
            lf \<leftarrow> wait_for (log_file_resp e) 0;
            let s2 = s2\<lparr>log_file := Some lf\<rparr>;
            if lf = [] then
              Some (run_command e s2 (abort_cmd ''no output file specified. not starting''))
            else do {
              let s3 = emit SetSampleName s2;
              sn \<leftarrow> wait_for (sample_name_resp e) 0;
              let s3 = s3\<lparr>sample_name := Some sn\<rparr>;
              if sn = [] then
                Some (run_command e s3 (abort_cmd ''no sample name specified. not starting''))
              else do {
                let s4 = emit SetSeqInt s3;
                si \<leftarrow> wait_for (seq_int_resp e) 0;
                let s4 = s4\<lparr>seq_int := Some si\<rparr>;
                case si of
                  NoValue \<Rightarrow>
                    Some (run_command e s4
                            (abort_cmd ''no time step interval specified. not starting''))
                | IntValue interval \<Rightarrow>
                    if interval = 0 then
                      Some (run_command e s4
                              (abort_cmd ''no time step interval specified. not starting''))
                    else do {
                      let s5 = emit SetLoopCount s4;
                      lc \<leftarrow> wait_for (loop_count_resp e) 0;
                      let s5 = s5\<lparr>loop_count := Some lc\<rparr>;
                      case lc of
                        NoValue \<Rightarrow>
                          Some (run_command e s5
                                  (abort_cmd ''no loop count specified. not starting''))
                      | IntValue n \<Rightarrow>
                          if n = 0 then
                            Some (run_command e s5
                                    (abort_cmd ''no loop count specified. not starting''))
                          else Some (run_sequence e s5 interval n)
                    }
              }
            }
          })"

section \<open>LabJacker U3: the slots of the user interface\<close>

subsection \<open>The device\<close>

text \<open>
  The U3 device as the program uses it: the state of its digital lines, read by
  \<^verbatim>\<open>getFIOState\<close> and written by \<^verbatim>\<open>setFIOState\<close>.
\<close>

record u3 =
  fio_state :: "nat \<Rightarrow> int"

definition getFIOState :: "u3 \<Rightarrow> nat \<Rightarrow> int" where
  "getFIOState dev fio_id = fio_state dev fio_id"

definition setFIOState :: "u3 \<Rightarrow> nat \<Rightarrow> int \<Rightarrow> u3" where
  "setFIOState dev fio_id state = dev\<lparr>fio_state := (fio_state dev)(fio_id := state)\<rparr>"

subsection \<open>Calibration formulas\<close>

text \<open>
  \<^verbatim>\<open>self.calibration['pres']\<close> is the text of a Python expression in the variable
  \<^verbatim>\<open>v\<close>, handed to \<^verbatim>\<open>eval\<close>. The model keeps the expression as its syntax
  tree; \<open>Unparsable\<close> stands for text that \<^verbatim>\<open>eval\<close> rejects. Evaluation
  raises (\<open>None\<close>) on such text and on a division by zero. Python floats are
  represented by real numbers.
\<close>

datatype pyexpr =
    V
  | Num real
  | Add pyexpr pyexpr
  | Sub pyexpr pyexpr
  | Mul pyexpr pyexpr
  | Div pyexpr pyexpr
  | Unparsable

fun eval_expr :: "pyexpr \<Rightarrow> real \<Rightarrow> real option" where
  "eval_expr V v = Some v"
| "eval_expr (Num c) v = Some c"
| "eval_expr (Add a b) v =
     (case eval_expr a v of None \<Rightarrow> None
      | Some x \<Rightarrow> (case eval_expr b v of None \<Rightarrow> None | Some y \<Rightarrow> Some (x + y)))"
| "eval_expr (Sub a b) v =
     (case eval_expr a v of None \<Rightarrow> None
      | Some x \<Rightarrow> (case eval_expr b v of None \<Rightarrow> None | Some y \<Rightarrow> Some (x - y)))"
| "eval_expr (Mul a b) v =
     (case eval_expr a v of None \<Rightarrow> None
      | Some x \<Rightarrow> (case eval_expr b v of None \<Rightarrow> None | Some y \<Rightarrow> Some (x * y)))"
| "eval_expr (Div a b) v =
     (case eval_expr a v of None \<Rightarrow> None
      | Some x \<Rightarrow> (case eval_expr b v of None \<Rightarrow> None
                   | Some y \<Rightarrow> if y = 0 then None else Some (x / y)))"
| "eval_expr Unparsable v = None"

text \<open>\<^verbatim>\<open>self.calibration_default['pres']\<close>: \<^verbatim>\<open>'(5.0221 * v) - 24.036'\<close>.\<close>

definition calibration_default :: pyexpr where
  "calibration_default = Sub (Mul (Num 5.0221) V) (Num 24.036)"

subsection \<open>The user interface object\<close>

text \<open>
  The fields of \<^verbatim>\<open>LabJackerUI\<close> that the modelled slots use, and the files they
  write: \<open>files\<close> maps a path to the content of the file there. Widgets are left out.
\<close>

datatype exn = KeyError | EvalError

record ui =
  calibration :: pyexpr
  u3_dev :: "u3 option"
  ui_status :: status
  ui_log_file :: string
  ui_sample_name :: string
  files :: "string \<Rightarrow> string option"

text \<open>
  \<^verbatim>\<open>self.io_states['fioN'][state]\<close>, for a state read from the status or the
  device: \<^verbatim>\<open>KeyError\<close> (\<open>None\<close>) when the port or the state is not a key.
\<close>

definition fio_state_label :: "nat \<Rightarrow> int option \<Rightarrow> string option" where
  "fio_state_label fio_id state =
     do {
       labels \<leftarrow> map_of io_states fio_id;
       st \<leftarrow> state;
       map_of labels st
     }"

subsection \<open>Valves\<close>

definition set_fio_status :: "nat \<Rightarrow> int option \<Rightarrow> ui \<Rightarrow> ui" where
  "set_fio_status fio_id v u = u\<lparr>ui_status := (ui_status u)\<lparr>fio := (fio (ui_status u))(fio_id := v)\<rparr>\<rparr>"

text \<open>
  \<^verbatim>\<open>update_fio_status\<close>. The result carries the exception that ended the slot, if
  any, with the object as it was left.
\<close>

definition update_fio_status :: "nat \<Rightarrow> ui \<Rightarrow> ui \<times> exn option" where
  "update_fio_status fio_id u =
     (case u3_dev u of
        Some dev \<Rightarrow>
          (let fio_st = getFIOState dev fio_id in
           case fio_state_label fio_id (Some fio_st) of
             None \<Rightarrow> (u, Some KeyError)
           | Some fio_label \<Rightarrow> (set_fio_status fio_id (Some fio_st) u, None))
      | None \<Rightarrow>
          (if map_of io_states fio_id = None then (u, Some KeyError)
           else (set_fio_status fio_id None u, None)))"

definition toggle_fio_state :: "nat \<Rightarrow> ui \<Rightarrow> ui \<times> exn option" where
  "toggle_fio_state fio_id u =
     (case u3_dev u of
        Some dev \<Rightarrow>
          (let fio_st = getFIOState dev fio_id;
               new_fio_state = (if fio_st \<noteq> 0 then 0 else 1)
           in update_fio_status fio_id
                (u\<lparr>u3_dev := Some (setFIOState dev fio_id new_fio_state)\<rparr>))
      | None \<Rightarrow> (u, None))"

definition toggle_fio4_state :: "ui \<Rightarrow> ui \<times> exn option" where
  "toggle_fio4_state u = toggle_fio_state 4 u"

definition toggle_fio5_state :: "ui \<Rightarrow> ui \<times> exn option" where
  "toggle_fio5_state u = toggle_fio_state 5 u"

definition toggle_fio6_state :: "ui \<Rightarrow> ui \<times> exn option" where
  "toggle_fio6_state u = toggle_fio_state 6 u"

definition toggle_fio7_state :: "ui \<Rightarrow> ui \<times> exn option" where
  "toggle_fio7_state u = toggle_fio_state 7 u"

text \<open>
  What \<^verbatim>\<open>getFIOState\<close> reads on the lines 4 .. 7 of the connected device, the
  four valves in order (used to state properties of sequences of toggles).
\<close>

definition valve_lines :: "ui \<Rightarrow> int list option" where
  "valve_lines u = map_option (\<lambda>dev. map (getFIOState dev) [4, 5, 6, 7]) (u3_dev u)"

subsection \<open>The state log\<close>

definition log_hdr :: string where
  "log_hdr = concat [''date,'' @ ''sample_name,'',
                     ''pressure,'',
                     ''voltage_0,voltage_1,voltage_diff'',
                     ''valve_state_1,valve_state_2,'',
                     ''valve_state_3,valve_state_4'' @ [CHR 0x0A]]"

text \<open>
  \<^verbatim>\<open>'{0}'.format(x)\<close> for a status value: \<^verbatim>\<open>None\<close> prints as
  \<^verbatim>\<open>None\<close>, a float as Python prints it (\<open>str_float\<close>, a parameter of the model).
\<close>

definition str_value :: "(real \<Rightarrow> string) \<Rightarrow> real option \<Rightarrow> string" where
  "str_value str_float x = (case x of None \<Rightarrow> ''None'' | Some r \<Rightarrow> str_float r)"

fun join_commas :: "string list \<Rightarrow> string" where
  "join_commas [] = []"
| "join_commas [f] = f"
| "join_commas (f # fs) = f @ '','' @ join_commas fs"

text \<open>The ten values of \<^verbatim>\<open>log_msg.format(...)\<close>, in the order of the call.\<close>

definition log_fields :: "(real \<Rightarrow> string) \<Rightarrow> string \<Rightarrow> ui \<Rightarrow> string list option" where
  "log_fields str_float timestamp u =
     do {
       l4 \<leftarrow> fio_state_label 4 (fio (ui_status u) 4);
       l5 \<leftarrow> fio_state_label 5 (fio (ui_status u) 5);
       l6 \<leftarrow> fio_state_label 6 (fio (ui_status u) 6);
       l7 \<leftarrow> fio_state_label 7 (fio (ui_status u) 7);
       Some [timestamp,
             ui_sample_name u,
             str_value str_float (pres (ui_status u)),
             str_value str_float (ain (ui_status u) 0),
             str_value str_float (ain (ui_status u) 1),
             str_value str_float (vd (ui_status u)),
             l4, l5, l6, l7]
     }"

definition path_exists :: "(string \<Rightarrow> string option) \<Rightarrow> string \<Rightarrow> bool" where
  "path_exists fs p = (fs p \<noteq> None)"

definition getsize :: "(string \<Rightarrow> string option) \<Rightarrow> string \<Rightarrow> nat" where
  "getsize fs p = (case fs p of None \<Rightarrow> 0 | Some c \<Rightarrow> length c)"

text \<open>\<^verbatim>\<open>open(p, 'a')\<close> followed by \<^verbatim>\<open>write(x)\<close>; opening creates a missing file.\<close>

definition append_file :: "(string \<Rightarrow> string option) \<Rightarrow> string \<Rightarrow> string \<Rightarrow> (string \<Rightarrow> string option)" where
  "append_file fs p x = fs(p \<mapsto> (case fs p of None \<Rightarrow> [] | Some c \<Rightarrow> c) @ x)"

text \<open>
  \<^verbatim>\<open>log_msg\<close>: the formatted line, \<open>None\<close> when a label lookup raises
  \<^verbatim>\<open>KeyError\<close>.
\<close>

definition log_msg :: "(real \<Rightarrow> string) \<Rightarrow> string \<Rightarrow> ui \<Rightarrow> string option" where
  "log_msg str_float timestamp u =
     map_option (\<lambda>vals. join_commas vals @ [CHR 0x0A]) (log_fields str_float timestamp u)"

definition log_state :: "(real \<Rightarrow> string) \<Rightarrow> string \<Rightarrow> ui \<Rightarrow> ui \<times> exn option" where
  "log_state str_float timestamp u =
     (let u1 = (if \<not> path_exists (files u) (ui_log_file u)
                   \<or> getsize (files u) (ui_log_file u) = 0
                then u\<lparr>files := append_file (files u) (ui_log_file u) log_hdr\<rparr>
                else u);
          u2 = u1\<lparr>files := append_file (files u1) (ui_log_file u1) []\<rparr>
      in case log_msg str_float timestamp u2 of
           None \<Rightarrow> (u2, Some KeyError)
         | Some line \<Rightarrow>
             (u2\<lparr>files := append_file (files u2) (ui_log_file u2) line\<rparr>, None))"

subsection \<open>Analog inputs and pressure\<close>

text \<open>
  \<^verbatim>\<open>update_ain\<close>. \<open>getAIN i\<close> is what the device call for input \<open>i\<close> returns on
  this tick, \<open>None\<close> when the call raises (no device, or a failed read).
\<close>

definition read_ain :: "(nat \<Rightarrow> real option) \<Rightarrow> status \<Rightarrow> nat \<Rightarrow> status" where
  "read_ain getAIN st ain_id = st\<lparr>ain := (ain st)(ain_id := getAIN ain_id)\<rparr>"

definition voltage_diff :: "status \<Rightarrow> real option" where
  "voltage_diff st =
     (case ain st 1 of None \<Rightarrow> None
      | Some a1 \<Rightarrow> (case ain st 0 of None \<Rightarrow> None | Some a0 \<Rightarrow> Some (a1 - a0)))"

text \<open>
  \<^verbatim>\<open>if v:\<close> on the voltage difference: \<^verbatim>\<open>None\<close> and \<^verbatim>\<open>0.0\<close> are
  both false. \<open>pressure_of\<close> is the branch taken for a true \<open>v\<close>, \<open>no_pressure\<close>
  the \<^verbatim>\<open>else\<close> branch.
\<close>

definition pressure_of :: "real \<Rightarrow> status \<Rightarrow> ui \<Rightarrow> ui \<times> exn option" where
  "pressure_of v st u =
     (case eval_expr (calibration u) v of
        Some pres_value \<Rightarrow> (u\<lparr>ui_status := st\<lparr>pres := Some pres_value\<rparr>\<rparr>, None)
      | None \<Rightarrow>
          (let u1 = u\<lparr>calibration := calibration_default, ui_status := st\<rparr>
           in case eval_expr calibration_default v of
                Some pres_value \<Rightarrow> (u1\<lparr>ui_status := st\<lparr>pres := Some pres_value\<rparr>\<rparr>, None)
              | None \<Rightarrow> (u1, Some EvalError)))"

definition no_pressure :: "status \<Rightarrow> ui \<Rightarrow> ui \<times> exn option" where
  "no_pressure st u = (u\<lparr>ui_status := st\<lparr>pres := None\<rparr>\<rparr>, None)"

definition update_ain :: "(nat \<Rightarrow> real option) \<Rightarrow> ui \<Rightarrow> ui \<times> exn option" where
  "update_ain getAIN u =
     (let st1 = foldl (read_ain getAIN) (ui_status u) [0, 1];
          v = voltage_diff st1;
          st2 = st1\<lparr>vd := v\<rparr>
      in case v of
           None \<Rightarrow> no_pressure st2 u
         | Some x \<Rightarrow> if x \<noteq> 0 then pressure_of x st2 u else no_pressure st2 u)"

subsection \<open>Signals and slots\<close>

text \<open>
  The connections made in \<^verbatim>\<open>start_seq\<close>, for the two signals whose slots change
  the device, the status or the log file: \<^verbatim>\<open>log_state\<close> and
  \<^verbatim>\<open>toggle_fio\<close>. (The other signals open dialogs, show the alert, append to the
  message area or toggle the run state.)
\<close>

definition deliver :: "(real \<Rightarrow> string) \<Rightarrow> event \<Rightarrow> ui \<Rightarrow> ui \<times> exn option" where
  "deliver str_float ev u =
     (case ev of
        LogState timestamp \<Rightarrow> log_state str_float timestamp u
      | ToggleFio fio_id \<Rightarrow> toggle_fio_state fio_id u
      | _ \<Rightarrow> (u, None))"

section \<open>Example inputs\<close>

text \<open>
  An operator who answers the log file dialog at the third test and the other dialogs at
  once, and never stops the run; a clock that returns \<open>T0\<close>, \<open>T1\<close>, ...; a status
  with the four valves closed.
\<close>

definition example_env :: env where
  "example_env =
     \<lparr>now = (\<lambda>k. ''T'' @ str_nat k),
      stop_at = (\<lambda>r. False),
      log_file_resp = (\<lambda>p. if p < 2 then None else Some ''run.csv''),
      sample_name_resp = (\<lambda>p. Some ''sample_name''),
      seq_int_resp = (\<lambda>p. Some (IntValue 5)),
      loop_count_resp = (\<lambda>p. Some (IntValue 2))\<rparr>"

text \<open>The same operator, pressing Stop so that the fourth read of the quit flag sees it.\<close>

definition example_env_stop :: env where
  "example_env_stop = example_env\<lparr>stop_at := (\<lambda>r. r = 3)\<rparr>"

text \<open>
  An operator who presses Stop at once and then cancels the log file dialog, and one who
  cancels the sample name dialog.
\<close>

definition example_env_refuse :: env where
  "example_env_refuse =
     example_env\<lparr>stop_at := (\<lambda>r. True), log_file_resp := (\<lambda>p. Some [])\<rparr>"

definition example_env_no_name :: env where
  "example_env_no_name = example_env\<lparr>sample_name_resp := (\<lambda>p. Some [])\<rparr>"

definition example_status :: status where
  "example_status =
     \<lparr>temp = None, ain = (\<lambda>i. None), vd = None, pres = None,
      fio = (\<lambda>k. if k \<in> {4, 5, 6, 7} then Some 1 else None), seq_running = True\<rparr>"

text \<open>
  A user interface with a connected device whose lines all read 1, the default
  calibration and no log file yet; a float printer (how Python prints a float is a
  parameter of the model; this one prints \<open>0.0\<close> for every float); analog inputs that
  both read 2.5 V, and analog inputs that read 1 V and 4 V.
\<close>

definition example_ui :: ui where
  "example_ui =
     \<lparr>calibration = calibration_default,
      u3_dev = Some \<lparr>fio_state = (\<lambda>k. 1)\<rparr>,
      ui_status = example_status,
      ui_log_file = ''run.csv'',
      ui_sample_name = ''sample_name'',
      files = (\<lambda>p. None)\<rparr>"

definition example_str_float :: "real \<Rightarrow> string" where
  "example_str_float r = ''0.0''"

definition equal_readings :: "nat \<Rightarrow> real option" where
  "equal_readings ain_id = Some 2.5"

definition example_readings :: "nat \<Rightarrow> real option" where
  "example_readings ain_id = (if ain_id = 0 then Some 1 else Some 4)"

section \<open>Properties\<close>

subsection \<open>The step list\<close>

text \<open>
  C1 (as the code has it). The claim counts 17 entries of which 5 are flagged; the list
  built by \<^verbatim>\<open>set_sequence\<close> has 18 entries of which 6 are flagged. At interval 5
  the claimed counts fail.
\<close>

theorem set_sequence_counts_counterexample:
  "\<not> (length (set_sequence 5) = 17 \<and> length (filter log_state_flag (set_sequence 5)) = 5)"
  by (simp add: set_sequence_def mk_command_def)

text \<open>
  C1, amended. For every step interval the step list has exactly 18 entries in a fixed
  order (the commands and the flags below; only the duration of the five waits depends on
  the interval), and exactly 6 of them are flagged to log the state: entries 1, 6, 10, 12,
  14 and 16.
\<close>

theorem set_sequence_fixed:
  "length (set_sequence interval) = 18
   \<and> length (filter log_state_flag (set_sequence interval)) = 6
   \<and> map seq_cmd (set_sequence interval) =
       [Sleep 0, EmitToggleFio 5, EmitToggleFio 6, EmitToggleFio 7, Sleep interval,
        EmitToggleFio 5, EmitToggleFio 7, EmitToggleFio 4, Sleep interval,
        EmitToggleFio 4, Sleep interval, EmitToggleFio 5, Sleep interval,
        EmitToggleFio 7, Sleep interval, EmitToggleFio 5, EmitToggleFio 6, EmitToggleFio 7]
   \<and> map log_state_flag (set_sequence interval) =
       [True, False, False, False, False, True, False, False, False,
        True, False, True, False, True, False, True, False, False]"
  by (simp add: set_sequence_def mk_command_def sleep_str_def)

subsection \<open>Decimal digits\<close>

lemma str_nat_digit: "n < 10 \<Longrightarrow> str_nat n = [digit_char n]"
  by (simp add: str_nat.simps)

subsection \<open>The initial state check\<close>

lemma display_state_error_eq:
  "display_state_error s =
     emit (DisplayAlert (''Required initial state:    '' @ [CHR 0x0A, CHR 0x0A]
                         @ ''  Valve 1 : Closed'' @ [CHR 0x0A]
                         @ ''  Valve 2 : Closed'' @ [CHR 0x0A]
                         @ ''  Valve 3 : Closed'' @ [CHR 0x0A]
                         @ ''  Valve 4 : Closed'')) s"
  by (simp add: display_state_error_def req_state_line_def init_cond_def io_labels_def
      io_states_def alert_msg_def)

lemma check_init_state_ok:
  assumes "fio st 4 = Some 1" "fio st 5 = Some 1" "fio st 6 = Some 1" "fio st 7 = Some 1"
  shows "check_init_state e st s = (True, s)"
  using assms by (simp add: check_init_state_def init_cond_def)

lemma check_init_state_fail:
  assumes "\<not> (fio st 4 = Some 1 \<and> fio st 5 = Some 1 \<and> fio st 6 = Some 1 \<and> fio st 7 = Some 1)"
  shows "check_init_state e st s =
       (False, s\<lparr>emitted := emitted s @
                  [ToggleRun True,
                   DisplayAlert (''Required initial state:    '' @ [CHR 0x0A, CHR 0x0A]
                                 @ ''  Valve 1 : Closed'' @ [CHR 0x0A]
                                 @ ''  Valve 2 : Closed'' @ [CHR 0x0A]
                                 @ ''  Valve 3 : Closed'' @ [CHR 0x0A]
                                 @ ''  Valve 4 : Closed''),
                   LogMsg (now e (clock_reads s)
                           @ '' : valve states do not match required initial state'')],
                clock_reads := Suc (clock_reads s)\<rparr>)"
  using assms
  by (auto simp add: check_init_state_def init_cond_def Let_def
      display_state_error_eq get_timestamp_def emit_def)

text \<open>
  C2. \<^verbatim>\<open>check_init_state\<close> returns true exactly when the four valve ports 4 .. 7
  all read 1 (Closed), and then it emits nothing. Otherwise it returns false after
  emitting the stop signal, exactly one alert (the required state of each port, by the
  labels Valve 1 .. Valve 4 and Closed) and exactly one log line, and \<^verbatim>\<open>run\<close>
  ends there: nothing is tried again.
\<close>

theorem check_init_state_iff:
  "(fst (check_init_state e st s) \<longleftrightarrow>
      fio st 4 = Some 1 \<and> fio st 5 = Some 1 \<and> fio st 6 = Some 1 \<and> fio st 7 = Some 1)
   \<and> (fst (check_init_state e st s) \<longrightarrow> snd (check_init_state e st s) = s)
   \<and> (\<not> fst (check_init_state e st s) \<longrightarrow>
        emitted (snd (check_init_state e st s)) =
          emitted s @
            [ToggleRun True,
             DisplayAlert (''Required initial state:    '' @ [CHR 0x0A, CHR 0x0A]
                           @ ''  Valve 1 : Closed'' @ [CHR 0x0A]
                           @ ''  Valve 2 : Closed'' @ [CHR 0x0A]
                           @ ''  Valve 3 : Closed'' @ [CHR 0x0A]
                           @ ''  Valve 4 : Closed''),
             LogMsg (now e (clock_reads s)
                     @ '' : valve states do not match required initial state'')]
        \<and> run e st s = Some (snd (check_init_state e st s)))"
proof (cases "fio st 4 = Some 1 \<and> fio st 5 = Some 1 \<and> fio st 6 = Some 1 \<and> fio st 7 = Some 1")
  case True
  then have "check_init_state e st s = (True, s)"
    by (simp add: check_init_state_ok)
  with True show ?thesis by simp
next
  case False
  from check_init_state_fail [OF False, of e s] False show ?thesis
    by (simp add: run_def)
qed

theorem check_init_state_iff_witness:
  "\<not> fst (check_init_state example_env (example_status\<lparr>fio := (fio example_status)(6 := Some 0)\<rparr>)
            init_seq_thread)
   \<and> run example_env (example_status\<lparr>fio := (fio example_status)(6 := Some 0)\<rparr>) init_seq_thread
       = Some (snd (check_init_state example_env
                      (example_status\<lparr>fio := (fio example_status)(6 := Some 0)\<rparr>) init_seq_thread))
   \<and> emitted (snd (check_init_state example_env
                      (example_status\<lparr>fio := (fio example_status)(6 := Some 0)\<rparr>) init_seq_thread))
       = [ToggleRun True,
          DisplayAlert (''Required initial state:    '' @ [CHR 0x0A, CHR 0x0A]
                        @ ''  Valve 1 : Closed'' @ [CHR 0x0A]
                        @ ''  Valve 2 : Closed'' @ [CHR 0x0A]
                        @ ''  Valve 3 : Closed'' @ [CHR 0x0A]
                        @ ''  Valve 4 : Closed''),
          LogMsg ''T0 : valve states do not match required initial state'']
   \<and> fst (check_init_state example_env example_status init_seq_thread)
   \<and> snd (check_init_state example_env example_status init_seq_thread) = init_seq_thread"
  using check_init_state_iff [of example_env
      "example_status\<lparr>fio := (fio example_status)(6 := Some 0)\<rparr>" init_seq_thread]
    check_init_state_iff [of example_env example_status init_seq_thread]
  by (simp add: example_status_def example_env_def init_seq_thread_def digit_char_def
      str_nat_digit)

subsection \<open>Cancellation\<close>

text \<open>
  \<open>fst (read_quit e s)\<close>: the next read of the quit flag finds it set. Once that is so,
  every later read finds it set, and commands and loop iterations emit nothing.
\<close>

lemma read_quit_set:
  "fst (read_quit e s) \<Longrightarrow>
     read_quit e s = (True, s\<lparr>quit := True, quit_reads := Suc (quit_reads s)\<rparr>)"
  by (auto simp add: read_quit_def Let_def)

lemma read_quit_unset:
  "\<not> fst (read_quit e s) \<Longrightarrow>
     read_quit e s = (False, s\<lparr>quit := False, quit_reads := Suc (quit_reads s)\<rparr>)"
  by (auto simp add: read_quit_def Let_def)

lemma run_command_cancelled:
  "fst (read_quit e s) \<Longrightarrow>
     run_command e s c = s\<lparr>quit := True, quit_reads := Suc (quit_reads s)\<rparr>"
  by (simp add: run_command_def read_quit_set)

lemma run_command_step:
  "\<not> fst (read_quit e s) \<Longrightarrow>
     run_command e s c =
       s\<lparr>quit := False, quit_reads := Suc (quit_reads s), clock_reads := Suc (clock_reads s),
         emitted := emitted s @ [LogMsg (now e (clock_reads s) @ '' : '' @ seq_msg c)]
            @ (if log_state_flag c then [LogState (now e (clock_reads s))] else [])
            @ [code_event (seq_cmd c)]\<rparr>"
  by (simp add: run_command_def read_quit_unset get_timestamp_def emit_def eval_code_def Let_def)

lemma cancelled_stays:
  "fst (read_quit e s) \<Longrightarrow>
     fst (read_quit e (s\<lparr>quit := True, quit_reads := Suc (quit_reads s)\<rparr>))"
  by (simp add: read_quit_def Let_def)

lemma run_seq_cancelled:
  "fst (read_quit e s) \<Longrightarrow>
     emitted (foldl (run_command e) s cmds) = emitted s
     \<and> fst (read_quit e (foldl (run_command e) s cmds))"
proof (induction cmds arbitrary: s)
  case Nil
  then show ?case by simp
next
  case (Cons c cmds)
  let ?s1 = "s\<lparr>quit := True, quit_reads := Suc (quit_reads s)\<rparr>"
  have step: "run_command e s c = ?s1"
    using Cons.prems by (rule run_command_cancelled)
  have "fst (read_quit e ?s1)"
    using Cons.prems by (rule cancelled_stays)
  from Cons.IH [OF this] show ?case
    by (simp add: step)
qed

lemma run_loop_body_cancelled:
  "fst (read_quit e s) \<Longrightarrow>
     run_loop_body e n cmds s i = s\<lparr>quit := True, quit_reads := Suc (quit_reads s)\<rparr>"
  by (simp add: run_loop_body_def read_quit_set)

lemma run_loop_body_start:
  "\<not> fst (read_quit e s) \<Longrightarrow>
     run_loop_body e n cmds s i =
       foldl (run_command e)
         (s\<lparr>quit := False, quit_reads := Suc (quit_reads s),
            clock_reads := Suc (clock_reads s),
            emitted := emitted s @ [LogMsg (now e (clock_reads s) @ '' : '' @ loop_msg i n)]\<rparr>)
         cmds"
  by (simp add: run_loop_body_def read_quit_unset log_loop_start_def get_timestamp_def emit_def)

lemma run_loops_from_cancelled:
  "fst (read_quit e s) \<Longrightarrow>
     emitted (foldl (run_loop_body e n cmds) s js) = emitted s
     \<and> fst (read_quit e (foldl (run_loop_body e n cmds) s js))"
proof (induction js arbitrary: s)
  case Nil
  then show ?case by simp
next
  case (Cons j js)
  let ?s1 = "s\<lparr>quit := True, quit_reads := Suc (quit_reads s)\<rparr>"
  have step: "run_loop_body e n cmds s j = ?s1"
    using Cons.prems by (rule run_loop_body_cancelled)
  have "fst (read_quit e ?s1)"
    using Cons.prems by (rule cancelled_stays)
  from Cons.IH [OF this] show ?case
    by (simp add: step)
qed

lemma rest_of_run_cancelled:
  assumes "fst (read_quit e s)"
  shows "emitted (run_command e
                    (foldl (run_loop_body e n cmds) (foldl (run_command e) s post) js) c)
         = emitted s"
proof -
  let ?s1 = "foldl (run_command e) s post"
  let ?s2 = "foldl (run_loop_body e n cmds) ?s1 js"
  have 1: "emitted ?s1 = emitted s" "fst (read_quit e ?s1)"
    using run_seq_cancelled [OF assms] by simp_all
  have 2: "emitted ?s2 = emitted ?s1" "fst (read_quit e ?s2)"
    using run_loops_from_cancelled [OF 1(2)] by simp_all
  show ?thesis
    using 1 2 by (simp add: run_command_cancelled)
qed

lemma upt_0_2: "[0..<2] = [0, Suc 0]"
  by (simp add: upt_rec numeral_2_eq_2)

lemma upt_split_at: "i < n \<Longrightarrow> [0..<n] = [0..<i] @ i # [Suc i..<n]"
  by (metis le_add2 less_imp_add_positive upt_add_eq_append upt_conv_Cons zero_le add_0)

lemma run_cancelled_at:
  assumes "i < n"
    and "s_i = foldl (run_loop_body e n (pre @ post)) s [0..<i]"
    and "\<not> fst (read_quit e s_i)"
    and "s_k = foldl (run_command e) (log_loop_start e n i (snd (read_quit e s_i))) pre"
    and "fst (read_quit e s_k)"
  shows "emitted (run_command e (run_loops e n (pre @ post) s) c) = emitted s_k"
proof -
  have body: "run_loop_body e n (pre @ post) s_i i = foldl (run_command e) s_k post"
    using assms(3,4) by (cases "read_quit e s_i") (simp add: run_loop_body_def)
  have "run_loops e n (pre @ post) s
        = foldl (run_loop_body e n (pre @ post)) (foldl (run_command e) s_k post) [Suc i..<n]"
    unfolding run_loops_def
    by (subst upt_split_at [OF assms(1)]) (simp add: assms(2) [symmetric] body)
  then show ?thesis
    using rest_of_run_cancelled [OF assms(5)] by simp
qed

text \<open>
  C4. Take a run of \<open>n\<close> loops over the step list \<open>pre @ post\<close>. Suppose loop \<open>i\<close> was
  started (the flag was unset at the check before it), its first steps \<open>pre\<close> have been
  run, leading to the state \<open>s_k\<close>, and the quit flag is set when the check before the
  next step reads it. Then all that the whole run emits, up to and including its
  completion report, is what had been emitted at \<open>s_k\<close>: no later step of this loop is
  executed and no further loop begins. The flag is read once per step, before the step:
  a step whose check found the flag unset emits its log line, its state record if
  flagged, and its effect, whatever stop requests arrive meanwhile.
\<close>

theorem cancel_between_steps:
  assumes "i < n"
    and "s_i = foldl (run_loop_body e n (pre @ post)) s [0..<i]"
    and "\<not> fst (read_quit e s_i)"
    and "s_k = foldl (run_command e) (log_loop_start e n i (snd (read_quit e s_i))) pre"
    and "fst (read_quit e s_k)"
  shows "emitted (run_command e (run_loops e n (pre @ post) s) finished_cmd) = emitted s_k
    \<and> (\<forall>s' c. \<not> fst (read_quit e s') \<longrightarrow>
          quit_reads (run_command e s' c) = Suc (quit_reads s')
          \<and> emitted (run_command e s' c) =
              emitted s' @ [LogMsg (now e (clock_reads s') @ '' : '' @ seq_msg c)]
                @ (if log_state_flag c then [LogState (now e (clock_reads s'))] else [])
                @ [code_event (seq_cmd c)])"
proof -
  have "emitted (run_command e (run_loops e n (pre @ post) s) finished_cmd) = emitted s_k"
    using assms by (rule run_cancelled_at)
  then show ?thesis
    by (simp add: run_command_step)
qed

theorem cancel_between_steps_witness:
  "emitted (run_command example_env_stop
              (run_loops example_env_stop 2 (set_sequence 5) init_seq_thread) finished_cmd)
   = [LogMsg ''T0 : starting sequence loop 1 of 2'',
      LogMsg ''T1 : sequence starting ...'', LogState ''T1'', Slept 0,
      LogMsg ''T2 : opening valve 2'', ToggleFio 5]"
  using cancel_between_steps [of 0 2 init_seq_thread example_env_stop
      "take 2 (set_sequence 5)" "drop 2 (set_sequence 5)" init_seq_thread,
      OF _ _ _ refl]
  by (simp add: set_sequence_def mk_command_def run_command_def read_quit_def
      init_seq_thread_def example_env_def example_env_stop_def Let_def log_loop_start_def
      get_timestamp_def
      emit_def eval_code_def loop_msg_def digit_char_def str_nat_digit)

subsection \<open>Waiting for a parameter\<close>

lemma wait_for_answer:
  "\<forall>q<p. resp (n + q) = None \<Longrightarrow> resp (n + p) = Some v \<Longrightarrow> wait_for resp n = Some v"
proof (induction p arbitrary: n)
  case 0
  then show ?case by (subst wait_for.simps) simp
next
  case (Suc p)
  have first: "resp n = None"
    using Suc.prems(1) [rule_format, of 0] by simp
  have "\<forall>q<p. resp (Suc n + q) = None"
    using Suc.prems(1) by (metis add_Suc_shift Suc_less_eq)
  moreover have "resp (Suc n + p) = Some v"
    using Suc.prems(2) by simp
  ultimately have "wait_for resp (Suc n) = Some v"
    by (rule Suc.IH)
  then show ?case
    by (subst wait_for.simps) (simp add: first)
qed

lemma wait_for_Some_answered:
  assumes "wait_for resp n = Some v"
  shows "\<exists>p. resp (n + p) = Some v \<and> (\<forall>q<p. resp (n + q) = None)"
proof (rule wait_for.raw_induct
    [where P = "\<lambda>resp n v. \<exists>p. resp (n + p) = Some v \<and> (\<forall>q<p. resp (n + q) = None)",
      OF _ assms], goal_cases)
  case (1 wf resp n v)
  show ?case
  proof (cases "resp n")
    case None
    with 1(2) have "wf resp (Suc n) = Some v" by simp
    from 1(1) [OF this] obtain p
      where p: "resp (Suc n + p) = Some v" "\<forall>q<p. resp (Suc n + q) = None"
      by blast
    have "\<forall>q<Suc p. resp (n + q) = None"
    proof (intro allI impI)
      fix q assume "q < Suc p"
      show "resp (n + q) = None"
      proof (cases q)
        case 0
        then show ?thesis using None by simp
      next
        case (Suc q')
        then show ?thesis using p(2) \<open>q < Suc p\<close> by simp
      qed
    qed
    with p(1) show ?thesis
      by (intro exI [of _ "Suc p"]) simp
  next
    case (Some a)
    with 1(2) show ?thesis
      by (intro exI [of _ 0]) simp
  qed
qed

lemma wait_for_never:
  "(\<forall>p. resp p = None) \<Longrightarrow> wait_for resp n = None"
  using wait_for_Some_answered [of resp n] by (cases "wait_for resp n") auto

subsection \<open>The completion report\<close>

lemma not_stopped_step:
  assumes "\<forall>r. \<not> stop_at e r" "\<not> quit s"
  shows "\<not> quit (run_command e s c)"
proof -
  have "\<not> fst (read_quit e s)"
    using assms by (simp add: read_quit_def Let_def)
  then show ?thesis
    by (simp add: run_command_step)
qed

lemma not_stopped_seq:
  assumes "\<forall>r. \<not> stop_at e r"
  shows "\<not> quit s \<Longrightarrow> \<not> quit (foldl (run_command e) s cmds)"
proof (induction cmds arbitrary: s)
  case Nil
  then show ?case by simp
next
  case (Cons c cmds)
  have "\<not> quit (run_command e s c)"
    using assms Cons.prems by (rule not_stopped_step)
  then show ?case
    using Cons.IH by simp
qed

lemma not_stopped_body:
  assumes "\<forall>r. \<not> stop_at e r" "\<not> quit s"
  shows "\<not> quit (run_loop_body e n cmds s i)"
proof -
  have nq: "\<not> fst (read_quit e s)"
    using assms by (simp add: read_quit_def Let_def)
  have "\<not> quit (log_loop_start e n i (s\<lparr>quit := False, quit_reads := Suc (quit_reads s)\<rparr>))"
    by (simp add: log_loop_start_def get_timestamp_def emit_def)
  then show ?thesis
    using assms(1) by (simp add: run_loop_body_def read_quit_unset [OF nq] not_stopped_seq)
qed

lemma not_stopped_loops:
  assumes "\<forall>r. \<not> stop_at e r"
  shows "\<not> quit s \<Longrightarrow> \<not> quit (foldl (run_loop_body e n cmds) s js)"
proof (induction js arbitrary: s)
  case Nil
  then show ?case by simp
next
  case (Cons j js)
  have "\<not> quit (run_loop_body e n cmds s j)"
    using assms Cons.prems by (rule not_stopped_body)
  then show ?case
    using Cons.IH by simp
qed

text \<open>
  No log line of a step or of a loop start reads as the completion report: their messages
  do not end in the letter d.
\<close>

lemma msg_not_finished:
  assumes "m \<noteq> []" "last m \<noteq> CHR ''d''"
  shows "t @ '' : '' @ m \<noteq> ts @ '' : finished''"
proof
  assume "t @ '' : '' @ m = ts @ '' : finished''"
  then have "last (t @ '' : '' @ m) = last (ts @ '' : finished'')"
    by simp
  with assms show False
    by simp
qed

lemma digit_not_d: "d < 10 \<Longrightarrow> digit_char d \<noteq> CHR ''d''"
proof -
  assume "d < 10"
  then have "d \<in> {0, 1, 2, 3, 4, 5, 6, 7, 8, 9}"
    by auto
  then show ?thesis
    by (auto simp add: digit_char_def)
qed

lemma str_nat_last: "str_nat n \<noteq> [] \<and> last (str_nat n) \<noteq> CHR ''d''"
  by (subst (1 2) str_nat.simps) (simp add: digit_not_d)

lemma step_msg_not_finished:
  assumes "c \<in> set (set_sequence interval)"
  shows "t @ '' : '' @ seq_msg c \<noteq> ts @ '' : finished''"
proof (rule msg_not_finished)
  show "seq_msg c \<noteq> []"
    using assms by (auto simp add: set_sequence_def mk_command_def wait_str_def)
  show "last (seq_msg c) \<noteq> CHR ''d''"
    using assms by (auto simp add: set_sequence_def mk_command_def wait_str_def)
qed

lemma loop_msg_not_finished: "t @ '' : '' @ loop_msg i n \<noteq> ts @ '' : finished''"
proof (rule msg_not_finished)
  show "loop_msg i n \<noteq> []"
    by (simp add: loop_msg_def)
  show "last (loop_msg i n) \<noteq> CHR ''d''"
    using str_nat_last [of n] by (simp add: loop_msg_def)
qed

text \<open>An invariant of the emitted events, carried through commands and loops.\<close>

lemma run_command_events:
  assumes "\<forall>ev\<in>set (emitted s). P ev"
    and "\<And>t. P (LogMsg (t @ '' : '' @ seq_msg c))"
    and "\<And>t. P (LogState t)"
    and "P (code_event (seq_cmd c))"
  shows "\<forall>ev\<in>set (emitted (run_command e s c)). P ev"
proof (cases "fst (read_quit e s)")
  case True
  then show ?thesis
    using assms(1) by (simp add: run_command_cancelled)
next
  case False
  then show ?thesis
    using assms by (auto simp add: run_command_step)
qed

lemma run_seq_events:
  assumes "\<And>t c. c \<in> set cmds \<Longrightarrow> P (LogMsg (t @ '' : '' @ seq_msg c))"
    and "\<And>t. P (LogState t)"
    and "\<And>c. c \<in> set cmds \<Longrightarrow> P (code_event (seq_cmd c))"
  shows "set cs \<subseteq> set cmds \<Longrightarrow> \<forall>ev\<in>set (emitted s). P ev \<Longrightarrow>
         \<forall>ev\<in>set (emitted (foldl (run_command e) s cs)). P ev"
proof (induction cs arbitrary: s)
  case Nil
  then show ?case by simp
next
  case (Cons c cs)
  have "\<forall>ev\<in>set (emitted (run_command e s c)). P ev"
    using Cons.prems assms by (intro run_command_events) auto
  then show ?case
    using Cons.IH Cons.prems(1) by simp
qed

lemma run_loop_body_events:
  assumes "\<And>t c. c \<in> set cmds \<Longrightarrow> P (LogMsg (t @ '' : '' @ seq_msg c))"
    and "\<And>t. P (LogState t)"
    and "\<And>c. c \<in> set cmds \<Longrightarrow> P (code_event (seq_cmd c))"
    and "\<And>t. P (LogMsg (t @ '' : '' @ loop_msg i n))"
    and "\<forall>ev\<in>set (emitted s). P ev"
  shows "\<forall>ev\<in>set (emitted (run_loop_body e n cmds s i)). P ev"
proof (cases "fst (read_quit e s)")
  case True
  then show ?thesis
    using assms(5) by (simp add: run_loop_body_cancelled)
next
  case False
  let ?s1 = "log_loop_start e n i (s\<lparr>quit := False, quit_reads := Suc (quit_reads s)\<rparr>)"
  have "\<forall>ev\<in>set (emitted ?s1). P ev"
    using assms(4,5) by (simp add: log_loop_start_def get_timestamp_def emit_def)
  then have "\<forall>ev\<in>set (emitted (foldl (run_command e) ?s1 cmds)). P ev"
    using assms(1-3) by (intro run_seq_events [where cmds = cmds and P = P]) auto
  then show ?thesis
    by (simp add: run_loop_body_def read_quit_unset [OF False])
qed

lemma run_loops_events:
  assumes "\<And>t c. c \<in> set cmds \<Longrightarrow> P (LogMsg (t @ '' : '' @ seq_msg c))"
    and "\<And>t. P (LogState t)"
    and "\<And>c. c \<in> set cmds \<Longrightarrow> P (code_event (seq_cmd c))"
    and "\<And>t i. P (LogMsg (t @ '' : '' @ loop_msg i n))"
  shows "\<forall>ev\<in>set (emitted s). P ev \<Longrightarrow>
         \<forall>ev\<in>set (emitted (foldl (run_loop_body e n cmds) s js)). P ev"
proof (induction js arbitrary: s)
  case Nil
  then show ?case by simp
next
  case (Cons j js)
  have "\<forall>ev\<in>set (emitted (run_loop_body e n cmds s j)). P ev"
    using assms Cons.prems by (intro run_loop_body_events) auto
  then show ?case
    using Cons.IH by simp
qed

lemma step_effect_not_log:
  "c \<in> set (set_sequence interval) \<Longrightarrow> code_event (seq_cmd c) \<noteq> LogMsg m"
  by (auto simp add: set_sequence_def mk_command_def sleep_str_def)

lemma loops_log_no_finished:
  assumes "LogMsg (ts @ '' : finished'')
             \<in> set (emitted (run_loops e n (set_sequence interval) s))"
  shows "LogMsg (ts @ '' : finished'') \<in> set (emitted s)"
proof -
  let ?P = "\<lambda>ev. ev = LogMsg (ts @ '' : finished'') \<longrightarrow> ev \<in> set (emitted s)"
  have "\<forall>ev\<in>set (emitted (foldl (run_loop_body e n (set_sequence interval)) s [0..<n])). ?P ev"
  proof (rule run_loops_events [where P = ?P])
    show "\<forall>ev\<in>set (emitted s). ?P ev"
      by simp
    show "?P (LogMsg (t @ '' : '' @ seq_msg c))" if "c \<in> set (set_sequence interval)" for t c
      using step_msg_not_finished [OF that, of t ts] by blast
    show "?P (LogState t)" for t
      by simp
    show "?P (code_event (seq_cmd c))" if "c \<in> set (set_sequence interval)" for c
      using step_effect_not_log [OF that] by blast
    show "?P (LogMsg (t @ '' : '' @ loop_msg i n))" for t i
      using loop_msg_not_finished [of t i n ts] by blast
  qed
  then show ?thesis
    using assms by (simp add: run_loops_def)
qed

lemma example_answers:
  "wait_for (log_file_resp example_env) 0 = Some ''run.csv''"
  "wait_for (sample_name_resp example_env) 0 = Some ''sample_name''"
  "wait_for (seq_int_resp example_env) 0 = Some (IntValue 5)"
  "wait_for (loop_count_resp example_env) 0 = Some (IntValue 2)"
proof -
  show "wait_for (log_file_resp example_env) 0 = Some ''run.csv''"
    by (rule wait_for_answer [where p = 2]) (simp_all add: example_env_def)
  show "wait_for (sample_name_resp example_env) 0 = Some ''sample_name''"
    by (rule wait_for_answer [where p = 0]) (simp_all add: example_env_def)
  show "wait_for (seq_int_resp example_env) 0 = Some (IntValue 5)"
    by (rule wait_for_answer [where p = 0]) (simp_all add: example_env_def)
  show "wait_for (loop_count_resp example_env) 0 = Some (IntValue 2)"
    by (rule wait_for_answer [where p = 0]) (simp_all add: example_env_def)
qed

lemma example_status_closed:
  "check_init_state e example_status s = (True, s)"
  by (rule check_init_state_ok) (simp_all add: example_status_def)

text \<open>
  C5 (as the code has it). A run that passed both gates (stopped during its first loop,
  before the third step) ends without a terminal message: the completion report
  goes through \<^verbatim>\<open>run_command\<close>, which does nothing once the quit flag is set.
\<close>

theorem cancelled_run_not_finished_counterexample:
  "map_option emitted (run example_env_stop example_status init_seq_thread) =
     Some [SetLogFile, SetSampleName, SetSeqInt, SetLoopCount,
           LogMsg ''T0 : starting sequence loop 1 of 2'',
           LogMsg ''T1 : sequence starting ...'', LogState ''T1'', Slept 0,
           LogMsg ''T2 : opening valve 2'', ToggleFio 5]"
proof -
  let ?s5 = "init_seq_thread
      \<lparr>log_file := Some ''run.csv'', sample_name := Some ''sample_name'',
       seq_int := Some (IntValue 5), loop_count := Some (IntValue 2),
       emitted := [SetLogFile, SetSampleName, SetSeqInt, SetLoopCount]\<rparr>"
  let ?s = "?s5\<lparr>seq := Some (set_sequence 5)\<rparr>"
  have answers:
    "wait_for (log_file_resp example_env_stop) 0 = Some ''run.csv''"
    "wait_for (sample_name_resp example_env_stop) 0 = Some ''sample_name''"
    "wait_for (seq_int_resp example_env_stop) 0 = Some (IntValue 5)"
    "wait_for (loop_count_resp example_env_stop) 0 = Some (IntValue 2)"
    using example_answers by (simp_all add: example_env_stop_def)
  have run: "run example_env_stop example_status init_seq_thread
             = Some (run_sequence example_env_stop ?s5 5 2)"
    by (simp add: run_def example_status_closed answers emit_def init_seq_thread_def)
  have "emitted (run_command example_env_stop
                   (run_loops example_env_stop 2
                      (take 2 (set_sequence 5) @ drop 2 (set_sequence 5)) ?s) finished_cmd)
        = [SetLogFile, SetSampleName, SetSeqInt, SetLoopCount,
           LogMsg ''T0 : starting sequence loop 1 of 2'',
           LogMsg ''T1 : sequence starting ...'', LogState ''T1'', Slept 0,
           LogMsg ''T2 : opening valve 2'', ToggleFio 5]"
    by (subst run_cancelled_at [of 0 2 ?s example_env_stop
          "take 2 (set_sequence 5)" "drop 2 (set_sequence 5)" ?s, OF _ _ _ refl])
      (simp_all add: set_sequence_def mk_command_def run_command_def read_quit_def
        init_seq_thread_def example_env_def example_env_stop_def Let_def log_loop_start_def
        get_timestamp_def emit_def eval_code_def loop_msg_def digit_char_def str_nat_digit)
  then show ?thesis
    by (simp add: run run_sequence_def Let_def)
qed

text \<open>
  C5, amended. A run that has passed the precondition and parameter gates logs
  \<open>finished\<close> (and then emits the stop signal) when it ends if the quit flag is unset
  at that moment, which is the case whenever no stop request arrives during the run. A run
  that ends by cancellation logs no terminal message: the completion report emits
  nothing, and no other log line of the run reads \<open>finished\<close>.
\<close>

theorem finished_iff_not_cancelled:
  assumes "s2 = run_loops e n (set_sequence interval) (s\<lparr>seq := Some (set_sequence interval)\<rparr>)"
  shows "(\<not> quit s \<and> (\<forall>r. \<not> stop_at e r) \<longrightarrow> \<not> fst (read_quit e s2))
    \<and> (\<not> fst (read_quit e s2) \<longrightarrow>
          emitted (run_sequence e s interval n) =
            emitted s2 @ [LogMsg (now e (clock_reads s2) @ '' : finished''), ToggleRun True])
    \<and> (fst (read_quit e s2) \<longrightarrow>
          emitted (run_sequence e s interval n) = emitted s2
          \<and> (\<forall>ts. LogMsg (ts @ '' : finished'') \<in> set (emitted (run_sequence e s interval n))
                \<longrightarrow> LogMsg (ts @ '' : finished'') \<in> set (emitted s)))"
proof (intro conjI impI)
  assume a: "\<not> quit s \<and> (\<forall>r. \<not> stop_at e r)"
  then have "\<not> quit s2"
    unfolding assms run_loops_def by (intro not_stopped_loops) simp_all
  with a show "\<not> fst (read_quit e s2)"
    by (simp add: read_quit_def Let_def)
next
  assume "\<not> fst (read_quit e s2)"
  then show "emitted (run_sequence e s interval n) =
      emitted s2 @ [LogMsg (now e (clock_reads s2) @ '' : finished''), ToggleRun True]"
    by (simp add: run_sequence_def Let_def assms [symmetric] run_command_step
        finished_cmd_def mk_command_def)
next
  assume "fst (read_quit e s2)"
  then show "emitted (run_sequence e s interval n) = emitted s2"
    by (simp add: run_sequence_def Let_def assms [symmetric] run_command_cancelled)
next
  assume c: "fst (read_quit e s2)"
  then have eq: "emitted (run_sequence e s interval n) = emitted s2"
    by (simp add: run_sequence_def Let_def assms [symmetric] run_command_cancelled)
  show "\<forall>ts. LogMsg (ts @ '' : finished'') \<in> set (emitted (run_sequence e s interval n))
                \<longrightarrow> LogMsg (ts @ '' : finished'') \<in> set (emitted s)"
  proof (intro allI impI)
    fix ts
    assume "LogMsg (ts @ '' : finished'') \<in> set (emitted (run_sequence e s interval n))"
    then have "LogMsg (ts @ '' : finished'')
        \<in> set (emitted (run_loops e n (set_sequence interval)
                          (s\<lparr>seq := Some (set_sequence interval)\<rparr>)))"
      by (simp add: eq assms)
    from loops_log_no_finished [OF this] show "LogMsg (ts @ '' : finished'') \<in> set (emitted s)"
      by simp
  qed
qed

lemma example_loops:
  "clock_reads (run_loops example_env 2 (set_sequence 5)
                  (init_seq_thread\<lparr>seq := Some (set_sequence 5)\<rparr>)) = 38"
  "\<not> quit (run_loops example_env 2 (set_sequence 5)
             (init_seq_thread\<lparr>seq := Some (set_sequence 5)\<rparr>))"
  by (simp_all add: run_loops_def upt_0_2 run_loop_body_start run_loop_body_cancelled
      read_quit_def Let_def run_command_step run_command_cancelled set_sequence_def
      mk_command_def sleep_str_def wait_str_def init_seq_thread_def example_env_def)

lemma example_loops_stop:
  "emitted (run_loops example_env_stop 2 (set_sequence 5)
              (init_seq_thread\<lparr>seq := Some (set_sequence 5)\<rparr>)) =
       [LogMsg ''T0 : starting sequence loop 1 of 2'',
        LogMsg ''T1 : sequence starting ...'', LogState ''T1'', Slept 0,
        LogMsg ''T2 : opening valve 2'', ToggleFio 5]"
  "quit (run_loops example_env_stop 2 (set_sequence 5)
           (init_seq_thread\<lparr>seq := Some (set_sequence 5)\<rparr>))"
  by (simp_all add: run_loops_def upt_0_2 run_loop_body_start run_loop_body_cancelled
      read_quit_def Let_def run_command_step run_command_cancelled set_sequence_def
      mk_command_def sleep_str_def wait_str_def init_seq_thread_def example_env_def
      example_env_stop_def loop_msg_def digit_char_def str_nat_digit)

theorem finished_iff_not_cancelled_witness:
  "(\<not> quit init_seq_thread \<and> (\<forall>r. \<not> stop_at example_env r))
   \<and> emitted (run_sequence example_env init_seq_thread 5 2) =
       emitted (run_loops example_env 2 (set_sequence 5)
                  (init_seq_thread\<lparr>seq := Some (set_sequence 5)\<rparr>))
       @ [LogMsg ''T38 : finished'', ToggleRun True]
   \<and> fst (read_quit example_env_stop
            (run_loops example_env_stop 2 (set_sequence 5)
               (init_seq_thread\<lparr>seq := Some (set_sequence 5)\<rparr>)))
   \<and> emitted (run_sequence example_env_stop init_seq_thread 5 2) =
       [LogMsg ''T0 : starting sequence loop 1 of 2'',
        LogMsg ''T1 : sequence starting ...'', LogState ''T1'', Slept 0,
        LogMsg ''T2 : opening valve 2'', ToggleFio 5]"
proof -
  have a: "\<not> quit init_seq_thread \<and> (\<forall>r. \<not> stop_at example_env r)"
    by (simp add: init_seq_thread_def example_env_def)
  have b: "fst (read_quit example_env_stop
            (run_loops example_env_stop 2 (set_sequence 5)
               (init_seq_thread\<lparr>seq := Some (set_sequence 5)\<rparr>)))"
    by (simp add: read_quit_def Let_def example_loops_stop(2))
  have t: "now example_env 38 = ''T38''"
    by (simp add: example_env_def str_nat.simps [of 38] str_nat_digit digit_char_def)
  from a b
    finished_iff_not_cancelled
      [where e = example_env and s = init_seq_thread and n = 2 and interval = 5, OF refl]
    finished_iff_not_cancelled
      [where e = example_env_stop and s = init_seq_thread and n = 2 and interval = 5, OF refl]
  show ?thesis
    by (simp add: example_loops(1) example_loops_stop(1) t)
qed

subsection \<open>The parameter handshake\<close>

lemma abort_report:
  assumes "quit s' = quit s" "quit_reads s' = quit_reads s" "clock_reads s' = clock_reads s"
  shows "emitted (run_command e s' (abort_cmd m)) =
           emitted s' @ (if fst (read_quit e s) then []
                         else [LogMsg (now e (clock_reads s) @ '' : '' @ m), ToggleRun True])"
proof (cases "fst (read_quit e s)")
  case True
  then have "fst (read_quit e s')"
    using assms by (simp add: read_quit_def Let_def)
  with True show ?thesis
    by (simp add: run_command_cancelled)
next
  case False
  then have "\<not> fst (read_quit e s')"
    using assms by (simp add: read_quit_def Let_def)
  with False show ?thesis
    using assms by (simp add: run_command_step abort_cmd_def mk_command_def)
qed

text \<open>
  C3 (as the code has it). The operator presses Stop right after Run and then cancels the
  log file dialog: the run ends after the first request without any log message, because
  the abort is reported through \<^verbatim>\<open>run_command\<close>, which does nothing once the quit
  flag is set.
\<close>

theorem silent_abort_counterexample:
  "map_option emitted (run example_env_refuse example_status init_seq_thread) = Some [SetLogFile]"
proof -
  have "wait_for (log_file_resp example_env_refuse) 0 = Some []"
    by (rule wait_for_answer [where p = 0]) (simp_all add: example_env_refuse_def)
  moreover have "fst (read_quit example_env_refuse s)" for s
    by (simp add: read_quit_def Let_def example_env_refuse_def)
  ultimately show ?thesis
    by (simp add: run_def example_status_closed run_command_cancelled emit_def
        init_seq_thread_def)
qed

text \<open>
  C3, amended. After the precondition check has succeeded, \<^verbatim>\<open>run\<close> requests the log
  path, the sample name, the step interval and the loop count, in this order, and waits
  for each answer before it goes on: the wait ends with the first value found, and a
  request that is never answered blocks the run for ever. When an answer is empty (or a
  number is 0) the run ends there: no later parameter is requested and no step of the
  sequence is executed; it logs that parameter's message and emits the stop signal,
  unless the quit flag is already set, in which case it ends silently. With four proper
  answers the sequence runs.
\<close>

theorem parameter_gate:
  fixes e :: env and s :: seq_thread and resp :: "nat \<Rightarrow> 'a option"
  defines "report \<equiv> \<lambda>m. (if fst (read_quit e s) then []
                          else [LogMsg (now e (clock_reads s) @ '' : '' @ m), ToggleRun True])"
  assumes closed:
    "fio st 4 = Some 1 \<and> fio st 5 = Some 1 \<and> fio st 6 = Some 1 \<and> fio st 7 = Some 1"
  shows
    "(\<forall>v. wait_for resp 0 = Some v \<longleftrightarrow> (\<exists>p. resp p = Some v \<and> (\<forall>q<p. resp q = None)))
     \<and> (wait_for (log_file_resp e) 0 = None \<longrightarrow> run e st s = None)
     \<and> (wait_for (log_file_resp e) 0 = Some [] \<longrightarrow>
          map_option emitted (run e st s) =
            Some (emitted s @ [SetLogFile] @ report ''no output file specified. not starting''))
     \<and> (wait_for (log_file_resp e) 0 = Some lf \<and> lf \<noteq> [] \<longrightarrow>
          (wait_for (sample_name_resp e) 0 = None \<longrightarrow> run e st s = None)
        \<and> (wait_for (sample_name_resp e) 0 = Some [] \<longrightarrow>
             map_option emitted (run e st s) =
               Some (emitted s @ [SetLogFile, SetSampleName]
                     @ report ''no sample name specified. not starting''))
        \<and> (wait_for (sample_name_resp e) 0 = Some sn \<and> sn \<noteq> [] \<longrightarrow>
             (wait_for (seq_int_resp e) 0 = None \<longrightarrow> run e st s = None)
           \<and> (wait_for (seq_int_resp e) 0 = Some si \<and> \<not> truthy_intval si \<longrightarrow>
                map_option emitted (run e st s) =
                  Some (emitted s @ [SetLogFile, SetSampleName, SetSeqInt]
                        @ report ''no time step interval specified. not starting''))
           \<and> (wait_for (seq_int_resp e) 0 = Some (IntValue interval) \<and> interval \<noteq> 0 \<longrightarrow>
                (wait_for (loop_count_resp e) 0 = None \<longrightarrow> run e st s = None)
              \<and> (wait_for (loop_count_resp e) 0 = Some lc \<and> \<not> truthy_intval lc \<longrightarrow>
                   map_option emitted (run e st s) =
                     Some (emitted s @ [SetLogFile, SetSampleName, SetSeqInt, SetLoopCount]
                           @ report ''no loop count specified. not starting''))
              \<and> (wait_for (loop_count_resp e) 0 = Some (IntValue n) \<and> n \<noteq> 0 \<longrightarrow>
                   run e st s =
                     Some (run_sequence e
                             (s\<lparr>log_file := Some lf, sample_name := Some sn,
                                seq_int := Some (IntValue interval),
                                emitted := emitted s @ [SetLogFile, SetSampleName,
                                                        SetSeqInt, SetLoopCount],
                                loop_count := Some (IntValue n)\<rparr>)
                             interval n)))))"
proof -
  have chk: "check_init_state e st s = (True, s)"
    using closed by (simp add: check_init_state_ok)
  have waits: "\<forall>v. wait_for resp 0 = Some v \<longleftrightarrow> (\<exists>p. resp p = Some v \<and> (\<forall>q<p. resp q = None))"
  proof (intro allI iffI)
    fix v assume "wait_for resp 0 = Some v"
    from wait_for_Some_answered [OF this]
    show "\<exists>p. resp p = Some v \<and> (\<forall>q<p. resp q = None)" by simp
  next
    fix v assume "\<exists>p. resp p = Some v \<and> (\<forall>q<p. resp q = None)"
    then obtain p where "resp (0 + p) = Some v" "\<forall>q<p. resp (0 + q) = None" by auto
    then show "wait_for resp 0 = Some v" by (intro wait_for_answer [where p = p])
  qed
  have rep: "emitted (run_command e s' (abort_cmd m)) = emitted s' @ report m"
    if "quit s' = quit s" "quit_reads s' = quit_reads s" "clock_reads s' = clock_reads s"
    for s' m
    unfolding report_def using that by (rule abort_report)
  have no_interval: "si = NoValue \<or> si = IntValue 0" if "\<not> truthy_intval si" for si
    using that by (cases si) auto
  have gates:
    "(wait_for (log_file_resp e) 0 = None \<longrightarrow> run e st s = None)"
    "(wait_for (log_file_resp e) 0 = Some [] \<longrightarrow>
          map_option emitted (run e st s) =
            Some (emitted s @ [SetLogFile] @ report ''no output file specified. not starting''))"
    by (simp_all add: run_def chk rep emit_def)
  have gates2:
    "(wait_for (sample_name_resp e) 0 = None \<longrightarrow> run e st s = None)"
    "(wait_for (sample_name_resp e) 0 = Some [] \<longrightarrow>
             map_option emitted (run e st s) =
               Some (emitted s @ [SetLogFile, SetSampleName]
                     @ report ''no sample name specified. not starting''))"
    if "wait_for (log_file_resp e) 0 = Some lf \<and> lf \<noteq> []"
    using that by (simp_all add: run_def chk rep emit_def)
  have gates3:
    "(wait_for (seq_int_resp e) 0 = None \<longrightarrow> run e st s = None)"
    "(wait_for (seq_int_resp e) 0 = Some si \<and> \<not> truthy_intval si \<longrightarrow>
                map_option emitted (run e st s) =
                  Some (emitted s @ [SetLogFile, SetSampleName, SetSeqInt]
                        @ report ''no time step interval specified. not starting''))"
    if "wait_for (log_file_resp e) 0 = Some lf \<and> lf \<noteq> []"
      "wait_for (sample_name_resp e) 0 = Some sn \<and> sn \<noteq> []"
    using that no_interval [of si] by (auto simp add: run_def chk rep emit_def)
  have gates4:
    "(wait_for (loop_count_resp e) 0 = None \<longrightarrow> run e st s = None)"
    "(wait_for (loop_count_resp e) 0 = Some lc \<and> \<not> truthy_intval lc \<longrightarrow>
                   map_option emitted (run e st s) =
                     Some (emitted s @ [SetLogFile, SetSampleName, SetSeqInt, SetLoopCount]
                           @ report ''no loop count specified. not starting''))"
    "(wait_for (loop_count_resp e) 0 = Some (IntValue n) \<and> n \<noteq> 0 \<longrightarrow>
                   run e st s =
                     Some (run_sequence e
                             (s\<lparr>log_file := Some lf, sample_name := Some sn,
                                seq_int := Some (IntValue interval),
                                emitted := emitted s @ [SetLogFile, SetSampleName,
                                                        SetSeqInt, SetLoopCount],
                                loop_count := Some (IntValue n)\<rparr>)
                             interval n))"
    if "wait_for (log_file_resp e) 0 = Some lf \<and> lf \<noteq> []"
      "wait_for (sample_name_resp e) 0 = Some sn \<and> sn \<noteq> []"
      "wait_for (seq_int_resp e) 0 = Some (IntValue interval) \<and> interval \<noteq> 0"
    using that no_interval [of lc] by (auto simp add: run_def chk rep emit_def)
  show ?thesis
    using waits gates gates2 gates3 gates4 by blast
qed

theorem parameter_gate_witness:
  "wait_for (log_file_resp example_env_no_name) 0 = Some ''run.csv''
   \<and> wait_for (sample_name_resp example_env_no_name) 0 = Some []
   \<and> map_option emitted (run example_env_no_name example_status init_seq_thread) =
       Some [SetLogFile, SetSampleName,
             LogMsg ''T0 : no sample name specified. not starting'', ToggleRun True]
   \<and> wait_for (loop_count_resp example_env) 0 = Some (IntValue 2)
   \<and> run example_env example_status init_seq_thread =
       Some (run_sequence example_env
               (init_seq_thread\<lparr>log_file := Some ''run.csv'', sample_name := Some ''sample_name'',
                  seq_int := Some (IntValue 5),
                  emitted := [SetLogFile, SetSampleName, SetSeqInt, SetLoopCount],
                  loop_count := Some (IntValue 2)\<rparr>) 5 2)"
proof -
  have closed: "fio example_status 4 = Some 1 \<and> fio example_status 5 = Some 1
      \<and> fio example_status 6 = Some 1 \<and> fio example_status 7 = Some 1"
    by (simp add: example_status_def)
  have lf: "wait_for (log_file_resp example_env_no_name) 0 = Some ''run.csv''"
    using example_answers(1) by (simp add: example_env_no_name_def)
  have sn: "wait_for (sample_name_resp example_env_no_name) 0 = Some []"
    by (rule wait_for_answer [where p = 0]) (simp_all add: example_env_no_name_def)
  have t: "\<not> fst (read_quit example_env_no_name init_seq_thread)"
    "now example_env_no_name (clock_reads init_seq_thread) = ''T0''"
    "emitted init_seq_thread = []"
    by (simp_all add: read_quit_def Let_def example_env_no_name_def example_env_def
        init_seq_thread_def str_nat_digit digit_char_def)
  have e0: "emitted init_seq_thread = []"
    by (simp add: init_seq_thread_def)
  from parameter_gate [OF closed, where e = example_env_no_name and s = init_seq_thread
      and lf = "''run.csv''" and resp = "log_file_resp example_env" and sn = "[]"
      and si = NoValue and interval = 5 and lc = NoValue and n = 2]
  have 1: "map_option emitted (run example_env_no_name example_status init_seq_thread) =
       Some [SetLogFile, SetSampleName,
             LogMsg ''T0 : no sample name specified. not starting'', ToggleRun True]"
    using lf sn t by simp
  from parameter_gate [OF closed, where e = example_env and s = init_seq_thread
      and lf = "''run.csv''" and resp = "log_file_resp example_env"
      and sn = "''sample_name''" and si = NoValue and interval = 5 and lc = NoValue and n = 2]
  have 2: "run example_env example_status init_seq_thread =
       Some (run_sequence example_env
               (init_seq_thread\<lparr>log_file := Some ''run.csv'', sample_name := Some ''sample_name'',
                  seq_int := Some (IntValue 5),
                  emitted := [SetLogFile, SetSampleName, SetSeqInt, SetLoopCount],
                  loop_count := Some (IntValue 2)\<rparr>) 5 2)"
    using example_answers by (simp add: e0)
  from lf sn 1 2 example_answers(4) show ?thesis
    by simp
qed

subsection \<open>The analog poll\<close>

lemma update_ain_voltages:
  "ain (ui_status (fst (update_ain getAIN u))) 0 = getAIN 0
   \<and> ain (ui_status (fst (update_ain getAIN u))) 1 = getAIN 1
   \<and> vd (ui_status (fst (update_ain getAIN u))) =
       (case getAIN 1 of None \<Rightarrow> None
        | Some a1 \<Rightarrow> (case getAIN 0 of None \<Rightarrow> None | Some a0 \<Rightarrow> Some (a1 - a0)))"
  by (simp add: update_ain_def read_ain_def voltage_diff_def pressure_of_def no_pressure_def
      Let_def split: option.splits)

text \<open>
  C6 (the defect). When both analog inputs read the same voltage, the voltage
  difference is available, 0, but no pressure is computed: \<^verbatim>\<open>if v:\<close> takes
  \<^verbatim>\<open>0.0\<close> for a missing value and the pressure is set to \<^verbatim>\<open>None\<close>.
\<close>

theorem update_ain_zero_diff:
  "vd (ui_status (fst (update_ain equal_readings example_ui))) = Some 0
   \<and> pres (ui_status (fst (update_ain equal_readings example_ui))) = None
   \<and> eval_expr (calibration example_ui) 0 = Some (- 24.036)"
  by (simp add: update_ain_def read_ain_def voltage_diff_def no_pressure_def Let_def
      equal_readings_def example_ui_def calibration_default_def)

subsection \<open>Calibration\<close>

lemma eval_default: "eval_expr calibration_default v = Some (5.0221 * v - 24.036)"
  by (simp add: calibration_default_def)

lemma update_ain_pressure:
  assumes "getAIN 0 = Some a0" "getAIN 1 = Some a1" "a1 - a0 \<noteq> 0"
  shows "update_ain getAIN u =
     pressure_of (a1 - a0)
       ((ui_status u)\<lparr>ain := (ain (ui_status u))(0 := Some a0, 1 := Some a1),
                      vd := Some (a1 - a0)\<rparr>) u"
  using assms by (simp add: update_ain_def read_ain_def voltage_diff_def Let_def)

lemma update_ain_no_exception: "snd (update_ain getAIN u) = None"
  by (simp add: update_ain_def pressure_of_def no_pressure_def eval_default Let_def
      split: option.splits)

lemma update_ain_calibration:
  "calibration (fst (update_ain getAIN u)) = calibration u
   \<or> calibration (fst (update_ain getAIN u)) = calibration_default"
  by (simp add: update_ain_def pressure_of_def no_pressure_def eval_default Let_def
      split: option.splits)

lemma default_is_sticky:
  "calibration u = calibration_default \<Longrightarrow>
     calibration (foldl (\<lambda>u getAIN. fst (update_ain getAIN u)) u ticks) = calibration_default"
proof (induction ticks arbitrary: u)
  case Nil
  then show ?case by simp
next
  case (Cons getAIN ticks)
  have "calibration (fst (update_ain getAIN u)) = calibration_default"
    using update_ain_calibration [of getAIN u] Cons.prems by auto
  then show ?case
    using Cons.IH by simp
qed

text \<open>
  C7. With the formula \<open>(2 * v) + 1\<close> loaded, a tick whose voltage difference is 3 stores
  the pressure 7. When the loaded formula fails to evaluate on a tick, that tick stores
  the pressure of the default formula \<open>(5.0221 * v) - 24.036\<close> and replaces the loaded
  formula by the default one; from then on every tick, whatever it reads, leaves the
  default formula in place and computes the pressure with it. No tick ends with an
  exception.
\<close>

theorem calibration_fallback:
  "(calibration u = Add (Mul (Num 2) V) (Num 1) \<and> getAIN 0 = Some a0 \<and> getAIN 1 = Some (a0 + 3)
      \<longrightarrow> pres (ui_status (fst (update_ain getAIN u))) = Some 7)
   \<and> (getAIN 0 = Some a0 \<and> getAIN 1 = Some a1 \<and> a1 - a0 \<noteq> 0
       \<and> eval_expr (calibration u) (a1 - a0) = None
      \<longrightarrow> calibration (fst (update_ain getAIN u)) = calibration_default
          \<and> pres (ui_status (fst (update_ain getAIN u))) = Some (5.0221 * (a1 - a0) - 24.036))
   \<and> (calibration u = calibration_default
      \<longrightarrow> (\<forall>ticks. calibration (foldl (\<lambda>u getAIN. fst (update_ain getAIN u)) u ticks)
                     = calibration_default)
          \<and> (getAIN 0 = Some a0 \<and> getAIN 1 = Some a1 \<and> a1 - a0 \<noteq> 0
              \<longrightarrow> pres (ui_status (fst (update_ain getAIN u)))
                    = Some (5.0221 * (a1 - a0) - 24.036)))
   \<and> snd (update_ain getAIN u) = None"
proof (intro conjI impI allI)
  assume "calibration u = Add (Mul (Num 2) V) (Num 1) \<and> getAIN 0 = Some a0
      \<and> getAIN 1 = Some (a0 + 3)"
  then show "pres (ui_status (fst (update_ain getAIN u))) = Some 7"
    by (simp add: update_ain_pressure [of getAIN a0 "a0 + 3"] pressure_of_def)
next
  assume a: "getAIN 0 = Some a0 \<and> getAIN 1 = Some a1 \<and> a1 - a0 \<noteq> 0
       \<and> eval_expr (calibration u) (a1 - a0) = None"
  then have eq: "update_ain getAIN u =
     pressure_of (a1 - a0)
       ((ui_status u)\<lparr>ain := (ain (ui_status u))(0 := Some a0, 1 := Some a1),
                      vd := Some (a1 - a0)\<rparr>) u"
    by (intro update_ain_pressure) simp_all
  from a show "calibration (fst (update_ain getAIN u)) = calibration_default"
    by (simp add: eq pressure_of_def eval_default Let_def)
  from a show "pres (ui_status (fst (update_ain getAIN u))) = Some (5.0221 * (a1 - a0) - 24.036)"
    by (simp add: eq pressure_of_def eval_default Let_def)
next
  fix ticks
  assume "calibration u = calibration_default"
  then show "calibration (foldl (\<lambda>u getAIN. fst (update_ain getAIN u)) u ticks)
               = calibration_default"
    by (rule default_is_sticky)
next
  assume d: "calibration u = calibration_default"
    and a: "getAIN 0 = Some a0 \<and> getAIN 1 = Some a1 \<and> a1 - a0 \<noteq> 0"
  from a have eq: "update_ain getAIN u =
     pressure_of (a1 - a0)
       ((ui_status u)\<lparr>ain := (ain (ui_status u))(0 := Some a0, 1 := Some a1),
                      vd := Some (a1 - a0)\<rparr>) u"
    by (intro update_ain_pressure) simp_all
  show "pres (ui_status (fst (update_ain getAIN u))) = Some (5.0221 * (a1 - a0) - 24.036)"
    by (simp add: eq pressure_of_def d eval_default)
next
  show "snd (update_ain getAIN u) = None"
    by (rule update_ain_no_exception)
qed

theorem calibration_fallback_witness:
  "pres (ui_status (fst (update_ain example_readings
                           (example_ui\<lparr>calibration := Add (Mul (Num 2) V) (Num 1)\<rparr>)))) = Some 7
   \<and> eval_expr (Div (Num 1) (Sub V (Num 3))) 3 = None
   \<and> calibration (fst (update_ain example_readings
                          (example_ui\<lparr>calibration := Div (Num 1) (Sub V (Num 3))\<rparr>)))
       = calibration_default
   \<and> pres (ui_status (fst (update_ain example_readings
                              (example_ui\<lparr>calibration := Div (Num 1) (Sub V (Num 3))\<rparr>))))
       = Some (- 8.9697)
   \<and> calibration (foldl (\<lambda>u getAIN. fst (update_ain getAIN u)) example_ui
                     [example_readings, equal_readings]) = calibration_default
   \<and> pres (ui_status (fst (update_ain example_readings example_ui))) = Some (- 8.9697)"
proof -
  have d: "calibration example_ui = calibration_default"
    by (simp add: example_ui_def)
  from d calibration_fallback [of example_ui example_readings 1 4]
  have sticky: "calibration (foldl (\<lambda>u getAIN. fst (update_ain getAIN u)) example_ui
                     [example_readings, equal_readings]) = calibration_default"
    by blast
  from sticky
    calibration_fallback [of "example_ui\<lparr>calibration := Add (Mul (Num 2) V) (Num 1)\<rparr>"
      example_readings 1 4]
    calibration_fallback [of "example_ui\<lparr>calibration := Div (Num 1) (Sub V (Num 3))\<rparr>"
      example_readings 1 4]
    calibration_fallback [of example_ui example_readings 1 4]
  show ?thesis
    by (simp add: example_readings_def example_ui_def)
qed

subsection \<open>The header of the state log\<close>

lemma log_hdr_not_empty: "log_hdr \<noteq> []"
  by (simp add: log_hdr_def)

lemma log_msg_depends:
  "ui_sample_name a = ui_sample_name b \<Longrightarrow> ui_status a = ui_status b \<Longrightarrow>
     log_msg sf ts a = log_msg sf ts b"
  by (simp add: log_msg_def log_fields_def)

lemma log_state_files:
  "files (fst (log_state sf ts u)) =
     (files u)(ui_log_file u \<mapsto>
        (case files u (ui_log_file u) of None \<Rightarrow> [] | Some c \<Rightarrow> c)
        @ (if files u (ui_log_file u) = None \<or> files u (ui_log_file u) = Some []
           then log_hdr else [])
        @ (case log_msg sf ts u of None \<Rightarrow> [] | Some line \<Rightarrow> line))"
proof -
  have same: "log_msg sf ts (u\<lparr>files := f\<rparr>) = log_msg sf ts u" for f
    by (rule log_msg_depends) simp_all
  show ?thesis
  proof (cases "files u (ui_log_file u)")
    case None
    then show ?thesis
      by (cases "log_msg sf ts u")
        (simp_all add: log_state_def Let_def path_exists_def getsize_def append_file_def same)
  next
    case (Some c)
    then show ?thesis
      by (cases "log_msg sf ts u"; cases "c = []")
        (simp_all add: log_state_def Let_def path_exists_def getsize_def append_file_def same)
  qed
qed

lemma log_state_keeps:
  "ui_log_file (fst (log_state sf ts u)) = ui_log_file u
   \<and> ui_sample_name (fst (log_state sf ts u)) = ui_sample_name u
   \<and> ui_status (fst (log_state sf ts u)) = ui_status u"
  by (simp add: log_state_def Let_def split: option.splits)

lemma log_run_nonempty:
  assumes "ui_sample_name u = ui_sample_name u0" "ui_log_file u = ui_log_file u0"
    and "files u (ui_log_file u0) = Some c" "c \<noteq> []"
  shows "files (foldl (\<lambda>u (ts, st). fst (log_state sf ts (u\<lparr>ui_status := st\<rparr>))) u snaps)
           (ui_log_file u0)
         = Some (c @ concat (map (\<lambda>(ts, st). case log_msg sf ts (u0\<lparr>ui_status := st\<rparr>) of
                                                None \<Rightarrow> [] | Some line \<Rightarrow> line) snaps))"
  using assms
proof (induction snaps arbitrary: u c)
  case Nil
  then show ?case by simp
next
  case (Cons x snaps)
  obtain ts st where x: "x = (ts, st)"
    by (cases x)
  let ?line = "case log_msg sf ts (u0\<lparr>ui_status := st\<rparr>) of None \<Rightarrow> [] | Some line \<Rightarrow> line"
  let ?u1 = "fst (log_state sf ts (u\<lparr>ui_status := st\<rparr>))"
  have msg: "log_msg sf ts (u\<lparr>ui_status := st\<rparr>) = log_msg sf ts (u0\<lparr>ui_status := st\<rparr>)"
    using Cons.prems(1) by (intro log_msg_depends) simp_all
  have keeps: "ui_sample_name ?u1 = ui_sample_name u0" "ui_log_file ?u1 = ui_log_file u0"
    using Cons.prems(1,2) by (simp_all add: log_state_keeps)
  have content: "files ?u1 (ui_log_file u0) = Some (c @ ?line)"
    using Cons.prems by (simp add: log_state_files msg)
  have "c @ ?line \<noteq> []"
    using Cons.prems(4) by simp
  from Cons.IH [OF keeps content this] show ?case
    by (simp add: x)
qed

text \<open>
  C8. One call of \<^verbatim>\<open>log_state\<close> appends to the log file the header line exactly
  when the file does not exist or is empty at that moment, and then the data record (if
  its formatting does not fail). In either case the file is not empty afterwards.
  Hence, over the log writes of a run (each with its timestamp and the status of that
  moment), the file ends as its old content, then the header if and only if the file was
  missing or empty at the first write, then the records: a non-empty file never gets the
  header again, and in a fresh file the header precedes every record.
\<close>

theorem log_state_header:
  "files (fst (log_state sf ts u)) (ui_log_file u) =
     Some ((case files u (ui_log_file u) of None \<Rightarrow> [] | Some c \<Rightarrow> c)
           @ (if files u (ui_log_file u) = None \<or> files u (ui_log_file u) = Some []
              then log_hdr else [])
           @ (case log_msg sf ts u of None \<Rightarrow> [] | Some line \<Rightarrow> line))
   \<and> files (fst (log_state sf ts u)) (ui_log_file u) \<noteq> Some []
   \<and> (\<forall>snaps. snaps \<noteq> [] \<longrightarrow>
         files (foldl (\<lambda>u (ts, st). fst (log_state sf ts (u\<lparr>ui_status := st\<rparr>))) u snaps)
           (ui_log_file u) =
         Some ((case files u (ui_log_file u) of None \<Rightarrow> [] | Some c \<Rightarrow> c)
               @ (if files u (ui_log_file u) = None \<or> files u (ui_log_file u) = Some []
                  then log_hdr else [])
               @ concat (map (\<lambda>(ts, st). case log_msg sf ts (u\<lparr>ui_status := st\<rparr>) of
                                             None \<Rightarrow> [] | Some line \<Rightarrow> line) snaps)))"
proof (intro conjI allI impI)
  show one: "files (fst (log_state sf ts u)) (ui_log_file u) =
     Some ((case files u (ui_log_file u) of None \<Rightarrow> [] | Some c \<Rightarrow> c)
           @ (if files u (ui_log_file u) = None \<or> files u (ui_log_file u) = Some []
              then log_hdr else [])
           @ (case log_msg sf ts u of None \<Rightarrow> [] | Some line \<Rightarrow> line))" for sf ts u
    by (simp add: log_state_files)
  show "files (fst (log_state sf ts u)) (ui_log_file u) \<noteq> Some []"
    by (cases "files u (ui_log_file u)") (auto simp add: one log_hdr_not_empty)
next
  fix snaps :: "(string \<times> status) list"
  assume "snaps \<noteq> []"
  then obtain ts1 st1 rest where snaps: "snaps = (ts1, st1) # rest"
    by (cases snaps) auto
  let ?old = "case files u (ui_log_file u) of None \<Rightarrow> [] | Some c \<Rightarrow> c"
  let ?hdr = "if files u (ui_log_file u) = None \<or> files u (ui_log_file u) = Some []
              then log_hdr else []"
  let ?line1 = "case log_msg sf ts1 (u\<lparr>ui_status := st1\<rparr>) of None \<Rightarrow> [] | Some line \<Rightarrow> line"
  let ?u1 = "fst (log_state sf ts1 (u\<lparr>ui_status := st1\<rparr>))"
  have keeps: "ui_sample_name ?u1 = ui_sample_name u" "ui_log_file ?u1 = ui_log_file u"
    by (simp_all add: log_state_keeps)
  have content: "files ?u1 (ui_log_file u) = Some (?old @ ?hdr @ ?line1)"
    by (simp add: log_state_files)
  have "?old @ ?hdr @ ?line1 \<noteq> []"
    by (cases "files u (ui_log_file u)") (auto simp add: log_hdr_not_empty)
  from log_run_nonempty [OF keeps content this, of sf rest]
  show "files (foldl (\<lambda>u (ts, st). fst (log_state sf ts (u\<lparr>ui_status := st\<rparr>))) u snaps)
           (ui_log_file u) =
         Some (?old @ ?hdr
               @ concat (map (\<lambda>(ts, st). case log_msg sf ts (u\<lparr>ui_status := st\<rparr>) of
                                             None \<Rightarrow> [] | Some line \<Rightarrow> line) snaps))"
    by (simp add: snaps)
qed

lemma example_log_msg:
  "log_msg example_str_float ts (example_ui\<lparr>files := f\<rparr>) =
     Some (ts @ '',sample_name,None,None,None,None,Closed,Closed,Closed,Closed'' @ [CHR 0x0A])"
  by (simp add: log_msg_def log_fields_def fio_state_label_def io_states_def example_ui_def
      example_status_def str_value_def)

theorem log_state_header_witness:
  "files example_ui (ui_log_file example_ui) = None
   \<and> files (fst (log_state example_str_float ''T1'' example_ui)) ''run.csv'' =
       Some (log_hdr
             @ ''T1,sample_name,None,None,None,None,Closed,Closed,Closed,Closed'' @ [CHR 0x0A])
   \<and> files (fst (log_state example_str_float ''T6''
                    (fst (log_state example_str_float ''T1'' example_ui)))) ''run.csv'' =
       Some (log_hdr
             @ ''T1,sample_name,None,None,None,None,Closed,Closed,Closed,Closed'' @ [CHR 0x0A]
             @ ''T6,sample_name,None,None,None,None,Closed,Closed,Closed,Closed'' @ [CHR 0x0A])"
proof -
  let ?u1 = "fst (log_state example_str_float ''T1'' example_ui)"
  have p: "ui_log_file example_ui = ''run.csv''" "files example_ui ''run.csv'' = None"
    by (simp_all add: example_ui_def)
  have 1: "files ?u1 ''run.csv'' =
       Some (log_hdr
             @ ''T1,sample_name,None,None,None,None,Closed,Closed,Closed,Closed'' @ [CHR 0x0A])"
    using log_state_header [of example_str_float "''T1''" example_ui]
      example_log_msg [of "''T1''" "files example_ui"] p
    by simp
  have p1: "ui_log_file ?u1 = ''run.csv''"
    using log_state_keeps [of example_str_float "''T1''" example_ui] p by simp
  have m: "log_msg example_str_float ''T6'' ?u1 =
      Some (''T6,sample_name,None,None,None,None,Closed,Closed,Closed,Closed'' @ [CHR 0x0A])"
    using log_msg_depends [of ?u1 example_ui example_str_float "''T6''"]
      log_state_keeps [of example_str_float "''T1''" example_ui]
      example_log_msg [of "''T6''" "files example_ui"]
    by simp
  have 2: "files (fst (log_state example_str_float ''T6'' ?u1)) ''run.csv'' =
       Some (log_hdr
             @ ''T1,sample_name,None,None,None,None,Closed,Closed,Closed,Closed'' @ [CHR 0x0A]
             @ ''T6,sample_name,None,None,None,None,Closed,Closed,Closed,Closed'' @ [CHR 0x0A])"
    using log_state_header [of example_str_float "''T6''" ?u1] 1 p1 m
    by (simp add: log_hdr_def)
  from p 1 2 show ?thesis
    by simp
qed

subsection \<open>The format of the state log\<close>

lemma fio_state_label_cases:
  "fio_id \<in> {4, 5, 6, 7} \<Longrightarrow>
     fio_state_label fio_id state =
       (if state = Some 0 then Some ''Open'' else if state = Some 1 then Some ''Closed'' else None)"
  by (cases state) (auto simp add: fio_state_label_def io_states_def)

lemma log_fields_cases:
  "log_fields sf ts u =
     (if (\<forall>k\<in>{4, 5, 6, 7}. fio (ui_status u) k = Some 0 \<or> fio (ui_status u) k = Some 1)
      then Some [ts, ui_sample_name u,
                 str_value sf (pres (ui_status u)),
                 str_value sf (ain (ui_status u) 0),
                 str_value sf (ain (ui_status u) 1),
                 str_value sf (vd (ui_status u)),
                 if fio (ui_status u) 4 = Some 0 then ''Open'' else ''Closed'',
                 if fio (ui_status u) 5 = Some 0 then ''Open'' else ''Closed'',
                 if fio (ui_status u) 6 = Some 0 then ''Open'' else ''Closed'',
                 if fio (ui_status u) 7 = Some 0 then ''Open'' else ''Closed'']
      else None)"
  by (auto simp add: log_fields_def fio_state_label_cases)

lemma str_value_no_char:
  "c \<notin> set ''None'' \<Longrightarrow> \<forall>r. c \<notin> set (sf r) \<Longrightarrow> count_list (str_value sf x) c = 0"
  by (cases x) (auto simp add: str_value_def)

text \<open>
  C9 (as the code has it). The values are joined by commas without any quoting: with the
  sample name \<open>a,b\<close> the record has ten commas, that is eleven comma-separated fields.
\<close>

theorem log_record_comma_counterexample:
  "log_msg example_str_float ''T1'' (example_ui\<lparr>ui_sample_name := ''a,b''\<rparr>) =
     Some (''T1,a,b,None,None,None,None,Closed,Closed,Closed,Closed'' @ [CHR 0x0A])
   \<and> count_list (''T1,a,b,None,None,None,None,Closed,Closed,Closed,Closed'' @ [CHR 0x0A])
        (CHR '','') = 10"
  by (simp add: log_msg_def log_fields_cases example_ui_def example_status_def str_value_def)

text \<open>
  C9, amended. The header line is the literal below (no comma between
  \<open>voltage_diff\<close> and \<open>valve_state_1\<close>) followed by a newline. A data record is
  written exactly when each of the four valve states is 0 or 1; it is the ten values
  timestamp, sample name, pressure, voltage 0, voltage 1, voltage difference and the four
  valve labels, in this order, joined by commas and ended by a newline. The values are not
  quoted: the record is one line of exactly ten comma-separated fields whenever the
  timestamp, the sample name and the printed numbers contain no comma and no newline.
\<close>

theorem log_record_format:
  "log_hdr = ''date,sample_name,pressure,voltage_0,voltage_1,voltage_diffvalve_state_1,valve_state_2,valve_state_3,valve_state_4'' @ [CHR 0x0A]
   \<and> (log_msg sf ts u \<noteq> None \<longleftrightarrow>
        (\<forall>k\<in>{4, 5, 6, 7}. fio (ui_status u) k = Some 0 \<or> fio (ui_status u) k = Some 1))
   \<and> (log_msg sf ts u = Some line \<longrightarrow>
        line = ts @ '','' @ ui_sample_name u
               @ '','' @ str_value sf (pres (ui_status u))
               @ '','' @ str_value sf (ain (ui_status u) 0)
               @ '','' @ str_value sf (ain (ui_status u) 1)
               @ '','' @ str_value sf (vd (ui_status u))
               @ '','' @ (if fio (ui_status u) 4 = Some 0 then ''Open'' else ''Closed'')
               @ '','' @ (if fio (ui_status u) 5 = Some 0 then ''Open'' else ''Closed'')
               @ '','' @ (if fio (ui_status u) 6 = Some 0 then ''Open'' else ''Closed'')
               @ '','' @ (if fio (ui_status u) 7 = Some 0 then ''Open'' else ''Closed'')
               @ [CHR 0x0A]
        \<and> ((\<forall>c\<in>{CHR '','', CHR 0x0A}.
                c \<notin> set ts \<and> c \<notin> set (ui_sample_name u) \<and> (\<forall>r. c \<notin> set (sf r)))
            \<longrightarrow> count_list line (CHR '','') = 9 \<and> count_list line (CHR 0x0A) = 1))"
proof (intro conjI impI)
  show "log_hdr = ''date,sample_name,pressure,voltage_0,voltage_1,voltage_diffvalve_state_1,valve_state_2,valve_state_3,valve_state_4'' @ [CHR 0x0A]"
    by (simp add: log_hdr_def)
  show "log_msg sf ts u \<noteq> None \<longleftrightarrow>
        (\<forall>k\<in>{4, 5, 6, 7}. fio (ui_status u) k = Some 0 \<or> fio (ui_status u) k = Some 1)"
    by (simp add: log_msg_def log_fields_cases)
next
  assume "log_msg sf ts u = Some line"
  then show line: "line = ts @ '','' @ ui_sample_name u
               @ '','' @ str_value sf (pres (ui_status u))
               @ '','' @ str_value sf (ain (ui_status u) 0)
               @ '','' @ str_value sf (ain (ui_status u) 1)
               @ '','' @ str_value sf (vd (ui_status u))
               @ '','' @ (if fio (ui_status u) 4 = Some 0 then ''Open'' else ''Closed'')
               @ '','' @ (if fio (ui_status u) 5 = Some 0 then ''Open'' else ''Closed'')
               @ '','' @ (if fio (ui_status u) 6 = Some 0 then ''Open'' else ''Closed'')
               @ '','' @ (if fio (ui_status u) 7 = Some 0 then ''Open'' else ''Closed'')
               @ [CHR 0x0A]"
    by (auto simp add: log_msg_def log_fields_cases split: if_splits)
  assume plain: "\<forall>c\<in>{CHR '','', CHR 0x0A}.
      c \<notin> set ts \<and> c \<notin> set (ui_sample_name u) \<and> (\<forall>r. c \<notin> set (sf r))"
  have v: "count_list (str_value sf x) (CHR '','') = 0"
    "count_list (str_value sf x) (CHR 0x0A) = 0" for x
    using plain by (simp_all add: str_value_no_char)
  have t: "count_list ts (CHR '','') = 0" "count_list ts (CHR 0x0A) = 0"
    "count_list (ui_sample_name u) (CHR '','') = 0"
    "count_list (ui_sample_name u) (CHR 0x0A) = 0"
    using plain by simp_all
  show "count_list line (CHR '','') = 9"
    by (simp add: line v t)
  show "count_list line (CHR 0x0A) = 1"
    by (simp add: line v t)
qed

theorem log_record_format_witness:
  "log_msg example_str_float ''T1'' example_ui =
     Some (''T1,sample_name,None,None,None,None,Closed,Closed,Closed,Closed'' @ [CHR 0x0A])
   \<and> CHR '','' \<notin> set (ui_sample_name example_ui)
   \<and> CHR 0x0A \<notin> set (ui_sample_name example_ui)
   \<and> count_list (''T1,sample_name,None,None,None,None,Closed,Closed,Closed,Closed''
                  @ [CHR 0x0A]) (CHR '','') = 9"
proof -
  have m: "log_msg example_str_float ''T1'' example_ui =
     Some (''T1,sample_name,None,None,None,None,Closed,Closed,Closed,Closed'' @ [CHR 0x0A])"
    using example_log_msg [of "''T1''" "files example_ui"] by simp
  have plain: "\<forall>c\<in>{CHR '','', CHR 0x0A}.
         c \<notin> set ''T1'' \<and> c \<notin> set (ui_sample_name example_ui)
         \<and> (\<forall>r. c \<notin> set (example_str_float r))"
    by (simp add: example_ui_def example_str_float_def)
  from log_record_format [of example_str_float "''T1''" example_ui
      "''T1,sample_name,None,None,None,None,Closed,Closed,Closed,Closed'' @ [CHR 0x0A]"]
    m plain
  have "count_list (''T1,sample_name,None,None,None,None,Closed,Closed,Closed,Closed''
                  @ [CHR 0x0A]) (CHR '','') = 9"
    by blast
  with m show ?thesis
    by (simp add: example_ui_def)
qed

subsection \<open>Valve actuation\<close>

lemma toggle_fio_state_connected:
  assumes "u3_dev u = Some dev" "fio_id \<in> {4, 5, 6, 7}"
  shows "toggle_fio_state fio_id u =
     (u\<lparr>u3_dev := Some (dev\<lparr>fio_state := (fio_state dev)
                                 (fio_id := if fio_state dev fio_id \<noteq> 0 then 0 else 1)\<rparr>),
        ui_status := (ui_status u)\<lparr>fio := (fio (ui_status u))
                                 (fio_id \<mapsto> if fio_state dev fio_id \<noteq> 0 then 0 else 1)\<rparr>\<rparr>,
      None)"
  using assms
  by (auto simp add: toggle_fio_state_def update_fio_status_def getFIOState_def
      setFIOState_def set_fio_status_def fio_state_label_def io_states_def Let_def)

lemma valve_steps_toggle:
  "c \<in> set (set_sequence interval) \<Longrightarrow>
     (\<exists>k\<in>{4, 5, 6, 7}. seq_cmd c = EmitToggleFio k) \<or> (\<exists>d. seq_cmd c = Sleep d)"
  by (auto simp add: set_sequence_def mk_command_def sleep_str_def)

lemma toggle_lines_at:
  assumes "fio_id \<in> {4, 5, 6, 7}"
  shows "valve_lines (fst (toggle_fio_state fio_id u)) =
     map_option (\<lambda>l. l[fio_id - 4 := (if l ! (fio_id - 4) \<noteq> 0 then 0 else 1)]) (valve_lines u)"
proof (cases "u3_dev u")
  case None
  then show ?thesis
    by (simp add: valve_lines_def toggle_fio_state_def)
next
  case (Some dev)
  from toggle_fio_state_connected [OF Some assms] Some assms show ?thesis
    by (auto simp add: valve_lines_def getFIOState_def)
qed

lemma toggle_lines:
  "valve_lines (fst (toggle_fio_state 4 u)) =
     map_option (\<lambda>l. l[0 := (if l ! 0 \<noteq> 0 then 0 else 1)]) (valve_lines u)"
  "valve_lines (fst (toggle_fio_state 5 u)) =
     map_option (\<lambda>l. l[1 := (if l ! 1 \<noteq> 0 then 0 else 1)]) (valve_lines u)"
  "valve_lines (fst (toggle_fio_state 6 u)) =
     map_option (\<lambda>l. l[2 := (if l ! 2 \<noteq> 0 then 0 else 1)]) (valve_lines u)"
  "valve_lines (fst (toggle_fio_state 7 u)) =
     map_option (\<lambda>l. l[3 := (if l ! 3 \<noteq> 0 then 0 else 1)]) (valve_lines u)"
  using toggle_lines_at [of 4 u] toggle_lines_at [of 5 u] toggle_lines_at [of 6 u]
    toggle_lines_at [of 7 u]
  by simp_all

lemma upt_18: "[0..<18] = [0, 1, 2, 3, 4, 5, 6, 7, 8, 9, 10, 11, 12, 13, 14, 15, 16, 17]"
  by code_simp

lemma labels_from_closed:
  assumes "valve_lines u = Some [1, 1, 1, 1]"
  shows "map (\<lambda>j. (seq_msg (set_sequence interval ! j),
                  valve_lines (foldl (\<lambda>u c. fst (deliver sf (code_event (seq_cmd c)) u)) u
                                 (take (Suc j) (set_sequence interval)))))
           [0..<18] =
         [(''sequence starting ...'', Some [1, 1, 1, 1]),
          (''opening valve 2'', Some [1, 0, 1, 1]),
          (''opening valve 3'', Some [1, 0, 0, 1]),
          (''opening valve 4'', Some [1, 0, 0, 0]),
          (wait_str interval, Some [1, 0, 0, 0]),
          (''closing valve 2'', Some [1, 1, 0, 0]),
          (''closing valve 4'', Some [1, 1, 0, 1]),
          (''opening valve 1'', Some [0, 1, 0, 1]),
          (wait_str interval, Some [0, 1, 0, 1]),
          (''closing valve 1'', Some [1, 1, 0, 1]),
          (wait_str interval, Some [1, 1, 0, 1]),
          (''opening valve 2'', Some [1, 0, 0, 1]),
          (wait_str interval, Some [1, 0, 0, 1]),
          (''opening valve 4'', Some [1, 0, 0, 0]),
          (wait_str interval, Some [1, 0, 0, 0]),
          (''closing valve 2'', Some [1, 1, 0, 0]),
          (''closing valve 3'', Some [1, 1, 1, 0]),
          (''closing valve 4'', Some [1, 1, 1, 1])]"
  unfolding upt_18
  by (simp add: set_sequence_def mk_command_def sleep_str_def deliver_def toggle_lines assms)

text \<open>
  C10. Every valve actuation is a toggle. With a device connected,
  \<^verbatim>\<open>toggle_fio_state\<close> reads the line and writes 0 if it read a nonzero state and 1
  otherwise (and records the new state in the status); it touches no other line. The four
  manual commands call it for the lines 4 .. 7, and every step of the sequence is a wait or
  emits \<^verbatim>\<open>toggle_fio\<close>, the signal connected to it: no step sets a named state.
  So the second step, labelled \<open>opening valve 2\<close>, closes valve 2 when that valve is
  open (state 0) at that moment, and opens it only when it is closed (state 1). When the
  sequence starts with the four valves closed and nothing else toggles them, every step
  leaves the valves as its label says: the table pairs each step's message with the
  states of valves 1 .. 4 after it (1 closed, 0 open).
\<close>

theorem valve_actuation_toggles:
  "(u3_dev u = Some dev \<and> fio_id \<in> {4, 5, 6, 7} \<longrightarrow>
      snd (toggle_fio_state fio_id u) = None
      \<and> map_option fio_state (u3_dev (fst (toggle_fio_state fio_id u))) =
          Some ((fio_state dev)(fio_id := if fio_state dev fio_id \<noteq> 0 then 0 else 1))
      \<and> fio (ui_status (fst (toggle_fio_state fio_id u))) =
          (fio (ui_status u))(fio_id \<mapsto> if fio_state dev fio_id \<noteq> 0 then 0 else 1))
   \<and> toggle_fio4_state u = toggle_fio_state 4 u
   \<and> toggle_fio5_state u = toggle_fio_state 5 u
   \<and> toggle_fio6_state u = toggle_fio_state 6 u
   \<and> toggle_fio7_state u = toggle_fio_state 7 u
   \<and> deliver sf (ToggleFio fio_id) u = toggle_fio_state fio_id u
   \<and> (\<forall>c\<in>set (set_sequence interval).
         (\<exists>k\<in>{4, 5, 6, 7}. seq_cmd c = EmitToggleFio k \<and> code_event (seq_cmd c) = ToggleFio k)
         \<or> (\<exists>d. seq_cmd c = Sleep d))
   \<and> seq_msg (set_sequence interval ! 1) = ''opening valve 2''
   \<and> code_event (seq_cmd (set_sequence interval ! 1)) = ToggleFio 5
   \<and> (u3_dev u = Some dev \<longrightarrow>
        map_option (\<lambda>d. fio_state d 5)
          (u3_dev (fst (deliver sf (code_event (seq_cmd (set_sequence interval ! 1))) u))) =
        Some (if fio_state dev 5 = 0 then 1 else 0))
   \<and> (valve_lines u = Some [1, 1, 1, 1] \<longrightarrow>
        map (\<lambda>j. (seq_msg (set_sequence interval ! j),
                  valve_lines (foldl (\<lambda>u c. fst (deliver sf (code_event (seq_cmd c)) u)) u
                                 (take (Suc j) (set_sequence interval)))))
          [0..<18] =
        [(''sequence starting ...'', Some [1, 1, 1, 1]),
         (''opening valve 2'', Some [1, 0, 1, 1]),
         (''opening valve 3'', Some [1, 0, 0, 1]),
         (''opening valve 4'', Some [1, 0, 0, 0]),
         (wait_str interval, Some [1, 0, 0, 0]),
         (''closing valve 2'', Some [1, 1, 0, 0]),
         (''closing valve 4'', Some [1, 1, 0, 1]),
         (''opening valve 1'', Some [0, 1, 0, 1]),
         (wait_str interval, Some [0, 1, 0, 1]),
         (''closing valve 1'', Some [1, 1, 0, 1]),
         (wait_str interval, Some [1, 1, 0, 1]),
         (''opening valve 2'', Some [1, 0, 0, 1]),
         (wait_str interval, Some [1, 0, 0, 1]),
         (''opening valve 4'', Some [1, 0, 0, 0]),
         (wait_str interval, Some [1, 0, 0, 0]),
         (''closing valve 2'', Some [1, 1, 0, 0]),
         (''closing valve 3'', Some [1, 1, 1, 0]),
         (''closing valve 4'', Some [1, 1, 1, 1])])"
proof -
  have step: "seq_msg (set_sequence interval ! 1) = ''opening valve 2''"
    "code_event (seq_cmd (set_sequence interval ! 1)) = ToggleFio 5"
    by (simp_all add: set_sequence_def mk_command_def)
  have seq: "\<forall>c\<in>set (set_sequence interval).
         (\<exists>k\<in>{4, 5, 6, 7}. seq_cmd c = EmitToggleFio k \<and> code_event (seq_cmd c) = ToggleFio k)
         \<or> (\<exists>d. seq_cmd c = Sleep d)"
    using valve_steps_toggle [of _ interval] by fastforce
  have del: "deliver sf (ToggleFio k) u = toggle_fio_state k u" for k
    by (simp add: deliver_def)
  have tog: "u3_dev u = Some dev \<and> k \<in> {4, 5, 6, 7} \<longrightarrow>
      snd (toggle_fio_state k u) = None
      \<and> map_option fio_state (u3_dev (fst (toggle_fio_state k u))) =
          Some ((fio_state dev)(k := if fio_state dev k \<noteq> 0 then 0 else 1))
      \<and> fio (ui_status (fst (toggle_fio_state k u))) =
          (fio (ui_status u))(k \<mapsto> if fio_state dev k \<noteq> 0 then 0 else 1)" for k
    by (auto simp add: toggle_fio_state_connected)
  have open2: "u3_dev u = Some dev \<longrightarrow>
        map_option (\<lambda>d. fio_state d 5)
          (u3_dev (fst (deliver sf (code_event (seq_cmd (set_sequence interval ! 1))) u))) =
        Some (if fio_state dev 5 = 0 then 1 else 0)"
    by (simp only: step del) (auto simp add: toggle_fio_state_connected)
  have closed: "valve_lines u = Some [1, 1, 1, 1] \<longrightarrow>
        map (\<lambda>j. (seq_msg (set_sequence interval ! j),
                  valve_lines (foldl (\<lambda>u c. fst (deliver sf (code_event (seq_cmd c)) u)) u
                                 (take (Suc j) (set_sequence interval)))))
          [0..<18] =
        [(''sequence starting ...'', Some [1, 1, 1, 1]),
         (''opening valve 2'', Some [1, 0, 1, 1]),
         (''opening valve 3'', Some [1, 0, 0, 1]),
         (''opening valve 4'', Some [1, 0, 0, 0]),
         (wait_str interval, Some [1, 0, 0, 0]),
         (''closing valve 2'', Some [1, 1, 0, 0]),
         (''closing valve 4'', Some [1, 1, 0, 1]),
         (''opening valve 1'', Some [0, 1, 0, 1]),
         (wait_str interval, Some [0, 1, 0, 1]),
         (''closing valve 1'', Some [1, 1, 0, 1]),
         (wait_str interval, Some [1, 1, 0, 1]),
         (''opening valve 2'', Some [1, 0, 0, 1]),
         (wait_str interval, Some [1, 0, 0, 1]),
         (''opening valve 4'', Some [1, 0, 0, 0]),
         (wait_str interval, Some [1, 0, 0, 0]),
         (''closing valve 2'', Some [1, 1, 0, 0]),
         (''closing valve 3'', Some [1, 1, 1, 0]),
         (''closing valve 4'', Some [1, 1, 1, 1])]"
    using labels_from_closed [where u = u and interval = interval and sf = sf]
    by (rule impI)
  show ?thesis
    apply (intro conjI)
              apply (rule tog)
             apply (simp add: toggle_fio4_state_def)
            apply (simp add: toggle_fio5_state_def)
           apply (simp add: toggle_fio6_state_def)
          apply (simp add: toggle_fio7_state_def)
         apply (rule del)
        apply (rule seq)
       apply (rule step(1))
      apply (rule step(2))
     apply (rule open2)
    apply (rule closed)
    done
qed

theorem valve_actuation_toggles_witness:
  "u3_dev (example_ui\<lparr>u3_dev := Some \<lparr>fio_state = (\<lambda>k. 1)(5 := 0)\<rparr>\<rparr>)
     = Some \<lparr>fio_state = (\<lambda>k. 1)(5 := 0)\<rparr>
   \<and> map_option (\<lambda>d. fio_state d 5)
        (u3_dev (fst (deliver example_str_float
                        (code_event (seq_cmd (set_sequence 5 ! 1)))
                        (example_ui\<lparr>u3_dev := Some \<lparr>fio_state = (\<lambda>k. 1)(5 := 0)\<rparr>\<rparr>)))) = Some 1
   \<and> map_option (\<lambda>d. fio_state d 7) (u3_dev (fst (toggle_fio_state 7 example_ui))) = Some 0
   \<and> fio (ui_status (fst (toggle_fio_state 7 example_ui))) 7 = Some 0
   \<and> valve_lines example_ui = Some [1, 1, 1, 1]
   \<and> valve_lines (foldl (\<lambda>u c. fst (deliver example_str_float (code_event (seq_cmd c)) u))
                      example_ui (set_sequence 5)) = Some [1, 1, 1, 1]"
proof -
  have c: "valve_lines example_ui = Some [1, 1, 1, 1]"
    by (simp add: valve_lines_def example_ui_def getFIOState_def)
  have l: "take 18 (set_sequence 5) = set_sequence 5"
    by (simp add: set_sequence_def)
  let ?after = "\<lambda>j. (seq_msg (set_sequence 5 ! j),
                  valve_lines (foldl (\<lambda>u c. fst (deliver example_str_float
                                                    (code_event (seq_cmd c)) u)) example_ui
                                 (take (Suc j) (set_sequence 5))))"
  from c valve_actuation_toggles [of example_ui "\<lparr>fio_state = (\<lambda>k. 1)\<rparr>" 7 example_str_float 5]
  have "map ?after [0..<18] ! 17 = (''closing valve 4'', Some [1, 1, 1, 1])"
    by simp
  then have 4: "valve_lines (foldl (\<lambda>u c. fst (deliver example_str_float (code_event (seq_cmd c)) u))
                      example_ui (set_sequence 5)) = Some [1, 1, 1, 1]"
    by (simp add: l)
  have a: "u3_dev example_ui = Some \<lparr>fio_state = (\<lambda>k. 1)\<rparr>"
    by (simp add: example_ui_def)
  from valve_actuation_toggles
      [of "example_ui\<lparr>u3_dev := Some \<lparr>fio_state = (\<lambda>k. 1)(5 := 0)\<rparr>\<rparr>"
        "\<lparr>fio_state = (\<lambda>k. 1)(5 := 0)\<rparr>" 5 example_str_float 5]
  have 1: "map_option (\<lambda>d. fio_state d 5)
        (u3_dev (fst (deliver example_str_float
                        (code_event (seq_cmd (set_sequence 5 ! 1)))
                        (example_ui\<lparr>u3_dev := Some \<lparr>fio_state = (\<lambda>k. 1)(5 := 0)\<rparr>\<rparr>)))) = Some 1"
    by (auto simp add: example_ui_def)
  from a valve_actuation_toggles [of example_ui "\<lparr>fio_state = (\<lambda>k. 1)\<rparr>" 7 example_str_float 5]
  have 2: "map_option fio_state (u3_dev (fst (toggle_fio_state 7 example_ui)))
             = Some ((\<lambda>k. 1)(7 := 0))"
    "fio (ui_status (fst (toggle_fio_state 7 example_ui))) = (fio (ui_status example_ui))(7 \<mapsto> 0)"
    by simp_all
  from 2(1) have 3: "map_option (\<lambda>d. fio_state d 7) (u3_dev (fst (toggle_fio_state 7 example_ui)))
      = Some 0"
    by (cases "u3_dev (fst (toggle_fio_state 7 example_ui))") auto
  from 1 2(2) 3 4 c show ?thesis
    by simp
qed

end
